theory Spec2Isabelle
  imports Complex_Main "HOL-Library.AList" "HOL-Library.Word"
begin

unbundle bit_operations_syntax

section \<open>JavaScript values\<close>

text \<open>
  The primitive values that the entity objects of the game hold. Numbers are read as
  reals, with \<open>NaN\<close> as a value of its own, because JavaScript's \<open>!==\<close> and the keys
  of a \<open>Map\<close> treat it specially.
\<close>

datatype val = VUndefined | VNull | VBool bool | VNum real | VNaN | VStr string

text \<open>\<open>a !== b\<close>: strict inequality; \<open>NaN\<close> is unequal to everything, itself included.\<close>

definition strict_neq :: "val \<Rightarrow> val \<Rightarrow> bool" where
  "strict_neq a b = (a = VNaN \<or> b = VNaN \<or> a \<noteq> b)"

text \<open>Truthiness, as \<open>if (v)\<close>, \<open>!v\<close> and \<open>v || w\<close> read it.\<close>

fun truthy :: "val \<Rightarrow> bool" where
  "truthy VUndefined = False"
| "truthy VNull = False"
| "truthy (VBool b) = b"
| "truthy (VNum r) = (r \<noteq> 0)"
| "truthy VNaN = False"
| "truthy (VStr s) = (s \<noteq> [])"

definition js_or :: "val \<Rightarrow> val \<Rightarrow> val" where
  "js_or a b = (if truthy a then a else b)"

text \<open>
  An object is the list of its own properties in insertion order; a \<open>Map\<close> is the list of
  its entries in insertion order. Writing an existing key keeps its place, writing a new
  one appends (\<open>AList.update\<close>); reading a property that is absent gives \<open>undefined\<close>.
\<close>

type_synonym obj = "(string \<times> val) list"

definition get_prop :: "obj \<Rightarrow> string \<Rightarrow> val" where
  "get_prop ob k = (case map_of ob k of None \<Rightarrow> VUndefined | Some v \<Rightarrow> v)"

definition set_prop :: "obj \<Rightarrow> string \<Rightarrow> val \<Rightarrow> obj" where
  "set_prop ob k v = AList.update k v ob"

section \<open>GameState (gameState.js)\<close>

text \<open>
  The entity table is a \<open>Map\<close> from entity id to entity object. Its keys are compared
  by SameValueZero, which on the values above is equality.
\<close>

type_synonym table = "(val \<times> obj) list"

record snapshot =
  s_tick :: int
  s_timestamp :: int
  s_entities :: table

record delta =
  d_tick :: int
  d_timestamp :: int
  created :: "obj list"
  updated :: "obj list"
  removed :: "val list"

record GameState =
  tick :: int
  entities :: table
  lastEntityId :: int
  snapshots :: "snapshot list"
  maxSnapshots :: nat
  lastSentState :: "snapshot option"

definition newGameState :: GameState where
  "newGameState = \<lparr>tick = 0, entities = [], lastEntityId = 0, snapshots = [],
                    maxSnapshots = 60, lastSentState = None\<rparr>"

subsection \<open>generateEntityId, addEntity, updateEntity, removeEntity\<close>

text \<open>\<open>return ++this.lastEntityId\<close>\<close>

definition generateEntityId :: "GameState \<Rightarrow> int \<times> GameState" where
  "generateEntityId gs = (lastEntityId gs + 1, gs\<lparr>lastEntityId := lastEntityId gs + 1\<rparr>)"

text \<open>
  \<open>addEntity\<close> gives the entity an id when its own is falsy, and stores a fresh object
  of eleven properties under that id. The result is the id and the new store.
\<close>

definition addEntity :: "obj \<Rightarrow> GameState \<Rightarrow> val \<times> GameState" where
  "addEntity entity gs =
     (let (eid, gs1) =
            (if \<not> truthy (get_prop entity ''id'')
             then (let (n, g) = generateEntityId gs in (VNum (of_int n), g))
             else (get_prop entity ''id'', gs));
          stored =
            [(''id'', eid),
             (''type'', js_or (get_prop entity ''entityType'') (get_prop entity ''type'')),
             (''x'', get_prop entity ''x''),
             (''y'', get_prop entity ''y''),
             (''width'', get_prop entity ''width''),
             (''height'', get_prop entity ''height''),
             (''angle'', js_or (get_prop entity ''angle'') (VNum 0)),
             (''health'', get_prop entity ''health''),
             (''maxHealth'', get_prop entity ''maxHealth''),
             (''owner'', js_or (get_prop entity ''owner'') VNull),
             (''lastUpdate'', VNum (of_int (tick gs1)))]
      in (eid, gs1\<lparr>entities := AList.update eid stored (entities gs1)\<rparr>))"

text \<open>
  The loop \<open>for (const key in updates)\<close> of \<open>updateEntity\<close>, over the keys of
  \<open>updates\<close> in order: a property is written when \<open>entity[key] !== updates[key]\<close>.
\<close>

fun update_fields :: "obj \<Rightarrow> obj \<Rightarrow> string list \<Rightarrow> bool \<Rightarrow> obj \<times> bool" where
  "update_fields entity updates [] changed = (entity, changed)"
| "update_fields entity updates (key # keys) changed =
     (if strict_neq (get_prop entity key) (get_prop updates key)
      then update_fields (set_prop entity key (get_prop updates key)) updates keys True
      else update_fields entity updates keys changed)"

definition updateEntity :: "val \<Rightarrow> obj \<Rightarrow> GameState \<Rightarrow> bool \<times> GameState" where
  "updateEntity eid updates gs =
     (case map_of (entities gs) eid of
        None \<Rightarrow> (False, gs)
      | Some entity \<Rightarrow>
          (let (e1, changed) = update_fields entity updates (map fst updates) False;
               e2 = (if changed then set_prop e1 ''lastUpdate'' (VNum (of_int (tick gs))) else e1)
           in (changed, gs\<lparr>entities := AList.update eid e2 (entities gs)\<rparr>)))"

text \<open>\<open>return this.entities.delete(id)\<close>: whether the id was there, and the new store.\<close>

definition removeEntity :: "val \<Rightarrow> GameState \<Rightarrow> bool \<times> GameState" where
  "removeEntity eid gs =
     (map_of (entities gs) eid \<noteq> None, gs\<lparr>entities := AList.delete eid (entities gs)\<rparr>)"

subsection \<open>createSnapshot\<close>

text \<open>\<open>now\<close> is the value of \<open>Date.now()\<close>. Every entity object is copied.\<close>

definition createSnapshot :: "int \<Rightarrow> GameState \<Rightarrow> snapshot \<times> GameState" where
  "createSnapshot now gs =
     (let snap = \<lparr>s_tick = tick gs, s_timestamp = now,
                   s_entities = map (\<lambda>(eid, entity). (eid, entity)) (entities gs)\<rparr>;
          hist = snapshots gs @ [snap];
          hist = (if length hist > maxSnapshots gs then tl hist else hist)
      in (snap, gs\<lparr>snapshots := hist\<rparr>))"

subsection \<open>createDelta\<close>

text \<open>
  The inner loop \<open>for (const key in entity)\<close>: \<open>lastUpdate\<close> is skipped, and a property
  of the new entity goes into \<open>updates\<close> when it \<open>!==\<close> the old entity's.
\<close>

fun changed_fields :: "obj \<Rightarrow> obj \<Rightarrow> string list \<Rightarrow> obj \<Rightarrow> bool \<Rightarrow> obj \<times> bool" where
  "changed_fields entity oldEntity [] updates hasChanges = (updates, hasChanges)"
| "changed_fields entity oldEntity (key # keys) updates hasChanges =
     (if key = ''lastUpdate'' then changed_fields entity oldEntity keys updates hasChanges
      else if strict_neq (get_prop entity key) (get_prop oldEntity key)
      then changed_fields entity oldEntity keys (set_prop updates key (get_prop entity key)) True
      else changed_fields entity oldEntity keys updates hasChanges)"

text \<open>One round of the loop over \<open>toState.entities\<close>.\<close>

definition diff_entity :: "snapshot option \<Rightarrow> val \<times> obj \<Rightarrow> delta \<Rightarrow> delta" where
  "diff_entity fromState = (\<lambda>(eid, entity) d.
     (case (case fromState of None \<Rightarrow> None | Some f \<Rightarrow> map_of (s_entities f) eid) of
        None \<Rightarrow> d\<lparr>created := created d @ [entity]\<rparr>
      | Some oldEntity \<Rightarrow>
          (let (updates, hasChanges) = changed_fields entity oldEntity (map fst entity) [] False
           in if hasChanges then d\<lparr>updated := updated d @ [set_prop updates ''id'' eid]\<rparr>
              else d)))"

text \<open>One round of the loop over \<open>fromState.entities\<close>.\<close>

definition diff_removed :: "snapshot \<Rightarrow> val \<times> obj \<Rightarrow> delta \<Rightarrow> delta" where
  "diff_removed toState = (\<lambda>(eid, entity) d.
     (if map_of (s_entities toState) eid = None then d\<lparr>removed := removed d @ [eid]\<rparr> else d))"

definition createDelta :: "snapshot option \<Rightarrow> snapshot \<Rightarrow> delta" where
  "createDelta fromState toState =
     (let d = \<lparr>d_tick = s_tick toState, d_timestamp = s_timestamp toState,
                created = [], updated = [], removed = []\<rparr>;
          d = fold (diff_entity fromState) (s_entities toState) d
      in (case fromState of
            None \<Rightarrow> d
          | Some f \<Rightarrow> fold (diff_removed toState) (s_entities f) d))"

subsection \<open>applyDelta\<close>

text \<open>\<open>this.entities.set(entity.id, { ...entity })\<close>\<close>

definition apply_created :: "obj \<Rightarrow> table \<Rightarrow> table" where
  "apply_created entity t = AList.update (get_prop entity ''id'') entity t"

text \<open>The loop \<open>for (const key in updates)\<close> that writes every property but \<open>id\<close>.\<close>

fun assign_fields :: "obj \<Rightarrow> obj \<Rightarrow> string list \<Rightarrow> obj" where
  "assign_fields entity updates [] = entity"
| "assign_fields entity updates (key # keys) =
     (if key \<noteq> ''id'' then assign_fields (set_prop entity key (get_prop updates key)) updates keys
      else assign_fields entity updates keys)"

definition apply_updated :: "obj \<Rightarrow> table \<Rightarrow> table" where
  "apply_updated updates t =
     (case map_of t (get_prop updates ''id'') of
        None \<Rightarrow> t
      | Some entity \<Rightarrow>
          AList.update (get_prop updates ''id'') (assign_fields entity updates (map fst updates)) t)"

definition applyDelta :: "delta \<Rightarrow> GameState \<Rightarrow> GameState" where
  "applyDelta d gs =
     (let t = fold apply_created (created d) (entities gs);
          t = fold apply_updated (updated d) t;
          t = fold AList.delete (removed d) t
      in gs\<lparr>entities := t, tick := d_tick d\<rparr>)"

subsection \<open>interpolateAngle\<close>

definition interpolateAngle :: "real \<Rightarrow> real \<Rightarrow> real \<Rightarrow> real" where
  "interpolateAngle from to alpha =
     (let diff = to - from;
          diff = (if diff > pi then diff - pi * 2 else diff);
          diff = (if diff < - pi then diff + pi * 2 else diff)
      in from + diff * alpha)"

subsection \<open>A store with one player, at tick 3\<close>

text \<open>
  The player is added at tick 0; an empty delta of tick 3 then moves the store's clock.
  \<open>stored_player px stamp\<close> is the object that the table holds for it.
\<close>

definition example_player :: obj where
  "example_player =
     [(''type'', VStr ''player''), (''x'', VNum 400), (''y'', VNum 300), (''width'', VNum 30),
      (''height'', VNum 30), (''health'', VNum 100), (''maxHealth'', VNum 100)]"

definition store_at_tick3 :: GameState where
  "store_at_tick3 =
     applyDelta \<lparr>d_tick = 3, d_timestamp = 0, created = [], updated = [], removed = []\<rparr>
       (snd (addEntity example_player newGameState))"

definition stored_player :: "real \<Rightarrow> real \<Rightarrow> obj" where
  "stored_player px stamp =
     [(''id'', VNum 1), (''type'', VStr ''player''), (''x'', VNum px), (''y'', VNum 300),
      (''width'', VNum 30), (''height'', VNum 30), (''angle'', VNum 0), (''health'', VNum 100),
      (''maxHealth'', VNum 100), (''owner'', VNull), (''lastUpdate'', VNum stamp)]"

subsection \<open>Comparing entity tables\<close>

text \<open>
  Two objects are equal field for field when every property that either has reads the
  same in both; two tables are equal, whatever the order of their ids, when they have the
  same ids and related entities under each. \<open>wf_table\<close> is what \<open>addEntity\<close>
  establishes: one entry per id, and the \<open>id\<close> field of an entity is its key.
  \<open>keys_kept\<close> says that an entity found in both tables has in the second every
  property that it has in the first.
\<close>

definition entity_eq :: "obj \<Rightarrow> obj \<Rightarrow> bool" where
  "entity_eq a b = (\<forall>k\<in>set (map fst a) \<union> set (map fst b). get_prop a k = get_prop b k)"

definition entity_eq_but_lastUpdate :: "obj \<Rightarrow> obj \<Rightarrow> bool" where
  "entity_eq_but_lastUpdate a b =
     (\<forall>k\<in>set (map fst a) \<union> set (map fst b). k \<noteq> ''lastUpdate'' \<longrightarrow> get_prop a k = get_prop b k)"

definition table_eq :: "(obj \<Rightarrow> obj \<Rightarrow> bool) \<Rightarrow> table \<Rightarrow> table \<Rightarrow> bool" where
  "table_eq R t1 t2 =
     (\<forall>eid\<in>set (map fst t1) \<union> set (map fst t2).
        (case (map_of t1 eid, map_of t2 eid) of (Some a, Some b) \<Rightarrow> R a b | _ \<Rightarrow> False))"

definition wf_table :: "table \<Rightarrow> bool" where
  "wf_table t = (distinct (map fst t) \<and> (\<forall>(eid, entity)\<in>set t. get_prop entity ''id'' = eid))"

definition keys_kept :: "table \<Rightarrow> table \<Rightarrow> bool" where
  "keys_kept t1 t2 =
     (\<forall>(eid, e1)\<in>set t1.
        (case map_of t2 eid of None \<Rightarrow> True | Some e2 \<Rightarrow> set (map fst e1) \<subseteq> set (map fst e2)))"

text \<open>
  The old entity that \<open>createDelta\<close> looks up, and the \<open>updates\<close> object that it
  pushes for an entry, if any.
\<close>

definition old_entity :: "snapshot option \<Rightarrow> val \<Rightarrow> obj option" where
  "old_entity fromState eid = (case fromState of None \<Rightarrow> None | Some f \<Rightarrow> map_of (s_entities f) eid)"

definition entity_updates :: "snapshot option \<Rightarrow> val \<times> obj \<Rightarrow> obj option" where
  "entity_updates fromState = (\<lambda>(eid, entity).
     (case old_entity fromState eid of
        None \<Rightarrow> None
      | Some oldEntity \<Rightarrow>
          (if snd (changed_fields entity oldEntity (map fst entity) [] False)
           then Some (set_prop (fst (changed_fields entity oldEntity (map fst entity) [] False)) ''id'' eid)
           else None)))"

subsection \<open>Snapshots of a running store\<close>

text \<open>
  \<open>snapshot_before\<close> is taken at tick 0 with the player alone; \<open>snapshot_after\<close> at
  tick 3, after the player's \<open>x\<close> was updated. \<open>snapshot_two\<close> holds a player and an
  enemy; by \<open>snapshot_moved\<close> the player has moved and lost health, the enemy is
  removed and a bullet is added.
\<close>

definition snapshot_before :: snapshot where
  "snapshot_before = fst (createSnapshot 1000 (snd (addEntity example_player newGameState)))"

definition snapshot_after :: snapshot where
  "snapshot_after =
     fst (createSnapshot 1050
       (snd (updateEntity (VNum 1) [(''x'', VNum 405)]
         (applyDelta \<lparr>d_tick = 3, d_timestamp = 0, created = [], updated = [], removed = []\<rparr>
           (snd (createSnapshot 1000 (snd (addEntity example_player newGameState))))))))"

definition example_enemy :: obj where
  "example_enemy =
     [(''type'', VStr ''enemy''), (''x'', VNum 800), (''y'', VNum 600), (''width'', VNum 40),
      (''height'', VNum 40), (''health'', VNum 60), (''maxHealth'', VNum 60)]"

definition example_bullet :: obj where
  "example_bullet =
     [(''type'', VStr ''bullet''), (''x'', VNum 420), (''y'', VNum 300), (''width'', VNum 4),
      (''height'', VNum 4), (''owner'', VNum 1)]"

definition two_entities :: GameState where
  "two_entities = snd (addEntity example_enemy (snd (addEntity example_player newGameState)))"

definition snapshot_two :: snapshot where
  "snapshot_two = fst (createSnapshot 1000 two_entities)"

definition snapshot_moved :: snapshot where
  "snapshot_moved =
     fst (createSnapshot 1050
       (snd (addEntity example_bullet
         (snd (removeEntity (VNum 2)
           (snd (updateEntity (VNum 1) [(''x'', VNum 405), (''health'', VNum 90)]
             (applyDelta \<lparr>d_tick = 3, d_timestamp = 0, created = [], updated = [], removed = []\<rparr>
               (snd (createSnapshot 1000 two_entities))))))))))"

section \<open>BinarySerializer (binarySerializer.js)\<close>

text \<open>
  The serializer writes into a \<open>DataView\<close> over a byte buffer, at a bit cursor. Reading
  or writing a byte outside the buffer throws a \<open>RangeError\<close>.
\<close>

datatype error = RangeError

record serializer =
  buffer :: "8 word list"
  bitPosition :: nat

definition getUint8 :: "serializer \<Rightarrow> nat \<Rightarrow> error + 8 word" where
  "getUint8 s byteIndex =
     (if byteIndex < length (buffer s) then Inr (buffer s ! byteIndex) else Inl RangeError)"

definition setUint8 :: "serializer \<Rightarrow> nat \<Rightarrow> 8 word \<Rightarrow> error + serializer" where
  "setUint8 s byteIndex b =
     (if byteIndex < length (buffer s) then Inr (s\<lparr>buffer := (buffer s)[byteIndex := b]\<rparr>)
      else Inl RangeError)"

definition and_then :: "error + 'a \<Rightarrow> ('a \<Rightarrow> error + 'b) \<Rightarrow> error + 'b" where
  "and_then m f = (case m of Inl e \<Rightarrow> Inl e | Inr v \<Rightarrow> f v)"

subsection \<open>Low-level bit operations\<close>

text \<open>
  \<open>writeBits(value, bits)\<close>: the loop runs \<open>i\<close> from \<open>bits - 1\<close> down to 0; the
  argument \<open>n\<close> below is \<open>i + 1\<close>. \<open>(value >> i) & 1\<close> reads bit \<open>i\<close> of the 32-bit
  value. The buffer is touched only when the bit is set, and then the bit is OR-ed in.
\<close>

fun writeBits_loop :: "32 word \<Rightarrow> nat \<Rightarrow> serializer \<Rightarrow> error + serializer" where
  "writeBits_loop v 0 s = Inr s"
| "writeBits_loop v (Suc i) s =
     (let byteIndex = bitPosition s div 8;
          bitIndex = 7 - bitPosition s mod 8
      in if bit v (i mod 32)
         then and_then (getUint8 s byteIndex) (\<lambda>old.
              and_then (setUint8 s byteIndex (old OR push_bit bitIndex 1)) (\<lambda>s'.
              writeBits_loop v i (s'\<lparr>bitPosition := bitPosition s' + 1\<rparr>)))
         else writeBits_loop v i (s\<lparr>bitPosition := bitPosition s + 1\<rparr>))"

definition writeBits :: "int \<Rightarrow> nat \<Rightarrow> serializer \<Rightarrow> error + serializer" where
  "writeBits v bits s = writeBits_loop (word_of_int v) bits s"

text \<open>
  \<open>readBits(bits)\<close>: \<open>value |= (bit << i)\<close> accumulates a 32-bit value, which is
  returned as a signed number.
\<close>

fun readBits_loop :: "32 word \<Rightarrow> nat \<Rightarrow> serializer \<Rightarrow> error + (32 word \<times> serializer)" where
  "readBits_loop v 0 s = Inr (v, s)"
| "readBits_loop v (Suc i) s =
     (let byteIndex = bitPosition s div 8;
          bitIndex = 7 - bitPosition s mod 8
      in and_then (getUint8 s byteIndex) (\<lambda>b.
         readBits_loop (v OR push_bit (i mod 32) (if bit b bitIndex then 1 else 0)) i
           (s\<lparr>bitPosition := bitPosition s + 1\<rparr>)))"

definition readBits :: "nat \<Rightarrow> serializer \<Rightarrow> error + (int \<times> serializer)" where
  "readBits bits s = and_then (readBits_loop 0 bits s) (\<lambda>(v, s'). Inr (sint v, s'))"

subsection \<open>Standard byte operations\<close>

text \<open>\<open>setUint8\<close> stores the value modulo 256.\<close>

definition writeUint8 :: "int \<Rightarrow> serializer \<Rightarrow> error + serializer" where
  "writeUint8 v s =
     (let byteIndex = bitPosition s div 8
      in and_then (setUint8 s byteIndex (word_of_int v)) (\<lambda>s'.
         Inr (s'\<lparr>bitPosition := bitPosition s' + 8\<rparr>)))"

definition readUint8 :: "serializer \<Rightarrow> error + (int \<times> serializer)" where
  "readUint8 s =
     (let byteIndex = bitPosition s div 8
      in and_then (getUint8 s byteIndex) (\<lambda>b.
         Inr (uint b, s\<lparr>bitPosition := bitPosition s + 8\<rparr>)))"

definition writeUint16 :: "int \<Rightarrow> serializer \<Rightarrow> error + serializer" where
  "writeUint16 v s = writeBits v 16 s"

definition readUint16 :: "serializer \<Rightarrow> error + (int \<times> serializer)" where
  "readUint16 s = readBits 16 s"

text \<open>\<open>value >>> 16\<close> and \<open>value & 0xFFFF\<close> on the 32-bit value.\<close>

definition writeUint32 :: "int \<Rightarrow> serializer \<Rightarrow> error + serializer" where
  "writeUint32 v s =
     and_then (writeBits (uint (drop_bit 16 (word_of_int v :: 32 word))) 16 s) (\<lambda>s'.
     writeBits (sint ((word_of_int v :: 32 word) AND 0xFFFF)) 16 s')"

definition readUint32 :: "serializer \<Rightarrow> error + (int \<times> serializer)" where
  "readUint32 s =
     and_then (readBits 16 s) (\<lambda>(high, s').
     and_then (readBits 16 s') (\<lambda>(low, s'').
     Inr (sint (push_bit 16 (word_of_int high :: 32 word) OR word_of_int low), s'')))"

subsection \<open>The property table\<close>

datatype property = P_id | P_type | P_x | P_y | P_angle | P_health | P_maxHealth | P_width | P_height | P_owner

datatype wire_type = TUint8 | TUint16 | TFixed | TAngle | TEnum

record config =
  ctype :: wire_type
  bits :: nat
  cmin :: real
  cmax :: real
  cvalues :: "string list"

text \<open>The keys of \<open>propertyMap\<close>, in the order in which \<open>for (const prop in ...)\<close> visits them.\<close>

definition props :: "property list" where
  "props = [P_id, P_type, P_x, P_y, P_angle, P_health, P_maxHealth, P_width, P_height, P_owner]"

fun propertyMap :: "property \<Rightarrow> config" where
  "propertyMap P_id = \<lparr>ctype = TUint16, bits = 16, cmin = 0, cmax = 0, cvalues = []\<rparr>"
| "propertyMap P_type = \<lparr>ctype = TEnum, bits = 3, cmin = 0, cmax = 0,
                        cvalues = [''player'', ''enemy'', ''bullet'', ''powerup'']\<rparr>"
| "propertyMap P_x = \<lparr>ctype = TFixed, bits = 16, cmin = 0, cmax = 5000, cvalues = []\<rparr>"
| "propertyMap P_y = \<lparr>ctype = TFixed, bits = 16, cmin = 0, cmax = 5000, cvalues = []\<rparr>"
| "propertyMap P_angle = \<lparr>ctype = TAngle, bits = 8, cmin = 0, cmax = 0, cvalues = []\<rparr>"
| "propertyMap P_health = \<lparr>ctype = TUint8, bits = 8, cmin = 0, cmax = 0, cvalues = []\<rparr>"
| "propertyMap P_maxHealth = \<lparr>ctype = TUint8, bits = 8, cmin = 0, cmax = 0, cvalues = []\<rparr>"
| "propertyMap P_width = \<lparr>ctype = TUint8, bits = 8, cmin = 0, cmax = 0, cvalues = []\<rparr>"
| "propertyMap P_height = \<lparr>ctype = TUint8, bits = 8, cmin = 0, cmax = 0, cvalues = []\<rparr>"
| "propertyMap P_owner = \<lparr>ctype = TUint16, bits = 16, cmin = 0, cmax = 0, cvalues = []\<rparr>"

text \<open>
  An entity on the wire: each property of the table is a number or a string of the kind
  the table gives it, or is \<open>undefined\<close> (\<open>None\<close>).
\<close>

record entity =
  e_id :: "int option"
  e_type :: "string option"
  e_x :: "real option"
  e_y :: "real option"
  e_angle :: "real option"
  e_health :: "int option"
  e_maxHealth :: "int option"
  e_width :: "int option"
  e_height :: "int option"
  e_owner :: "int option"

definition empty_entity :: entity where
  "empty_entity = \<lparr>e_id = None, e_type = None, e_x = None, e_y = None, e_angle = None,
     e_health = None, e_maxHealth = None, e_width = None, e_height = None, e_owner = None\<rparr>"

datatype pval = PInt int | PReal real | PStr string

text \<open>\<open>entity[prop]\<close>\<close>

fun entity_get :: "entity \<Rightarrow> property \<Rightarrow> pval option" where
  "entity_get e P_id = map_option PInt (e_id e)"
| "entity_get e P_type = map_option PStr (e_type e)"
| "entity_get e P_x = map_option PReal (e_x e)"
| "entity_get e P_y = map_option PReal (e_y e)"
| "entity_get e P_angle = map_option PReal (e_angle e)"
| "entity_get e P_health = map_option PInt (e_health e)"
| "entity_get e P_maxHealth = map_option PInt (e_maxHealth e)"
| "entity_get e P_width = map_option PInt (e_width e)"
| "entity_get e P_height = map_option PInt (e_height e)"
| "entity_get e P_owner = map_option PInt (e_owner e)"

text \<open>\<open>entity[prop] = value\<close>, for a value of the property's kind.\<close>

fun entity_set :: "property \<Rightarrow> pval \<Rightarrow> entity \<Rightarrow> entity" where
  "entity_set P_id (PInt n) e = e\<lparr>e_id := Some n\<rparr>"
| "entity_set P_type (PStr v) e = e\<lparr>e_type := Some v\<rparr>"
| "entity_set P_x (PReal r) e = e\<lparr>e_x := Some r\<rparr>"
| "entity_set P_y (PReal r) e = e\<lparr>e_y := Some r\<rparr>"
| "entity_set P_angle (PReal r) e = e\<lparr>e_angle := Some r\<rparr>"
| "entity_set P_health (PInt n) e = e\<lparr>e_health := Some n\<rparr>"
| "entity_set P_maxHealth (PInt n) e = e\<lparr>e_maxHealth := Some n\<rparr>"
| "entity_set P_width (PInt n) e = e\<lparr>e_width := Some n\<rparr>"
| "entity_set P_height (PInt n) e = e\<lparr>e_height := Some n\<rparr>"
| "entity_set P_owner (PInt n) e = e\<lparr>e_owner := Some n\<rparr>"
| "entity_set _ _ e = e"

subsection \<open>Fixed-point numbers, angles and enums\<close>

text \<open>\<open>Math.round\<close> rounds half up; \<open>%\<close> is the remainder of truncated division.\<close>

definition math_round :: "real \<Rightarrow> int" where
  "math_round r = \<lfloor>r + 1 / 2\<rfloor>"

definition js_rem :: "real \<Rightarrow> real \<Rightarrow> real" where
  "js_rem a b = a - b * of_int (if a / b < 0 then \<lceil>a / b\<rceil> else \<lfloor>a / b\<rfloor>)"

text \<open>
  \<open>(1 << bits) - 1\<close>: the shift is on 32-bit integers, with the count taken modulo 32
  and a signed result.
\<close>

definition max_quantum :: "nat \<Rightarrow> int" where
  "max_quantum n = sint (push_bit (n mod 32) (1 :: 32 word)) - 1"

definition writeFixed :: "real \<Rightarrow> config \<Rightarrow> serializer \<Rightarrow> error + serializer" where
  "writeFixed v c s =
     (let normalized = (v - cmin c) / (cmax c - cmin c);
          quantized = math_round (normalized * of_int (max_quantum (bits c)))
      in writeBits quantized (bits c) s)"

definition readFixed :: "config \<Rightarrow> serializer \<Rightarrow> error + (real \<times> serializer)" where
  "readFixed c s =
     and_then (readBits (bits c) s) (\<lambda>(quantized, s').
       (let normalized = of_int quantized / of_int (max_quantum (bits c))
        in Inr (cmin c + normalized * (cmax c - cmin c), s')))"

definition writeAngle :: "real \<Rightarrow> nat \<Rightarrow> serializer \<Rightarrow> error + serializer" where
  "writeAngle angle n s =
     (let normalized = js_rem (js_rem angle (pi * 2) + pi * 2) (pi * 2);
          quantized = math_round (normalized / (pi * 2) * of_int (max_quantum n))
      in writeBits quantized n s)"

definition readAngle :: "nat \<Rightarrow> serializer \<Rightarrow> error + (real \<times> serializer)" where
  "readAngle n s =
     and_then (readBits n s) (\<lambda>(quantized, s').
       Inr ((of_int quantized / of_int (max_quantum n)) * pi * 2, s'))"

fun indexOf :: "string list \<Rightarrow> string \<Rightarrow> int" where
  "indexOf [] v = - 1"
| "indexOf (x # xs) v = (if x = v then 0 else (let i = indexOf xs v in if i < 0 then - 1 else i + 1))"

definition writeEnum :: "string \<Rightarrow> config \<Rightarrow> serializer \<Rightarrow> error + serializer" where
  "writeEnum v c s =
     (let index = indexOf (cvalues c) v
      in writeBits (if index \<ge> 0 then index else 0) (bits c) s)"

text \<open>\<open>config.values[index] || config.values[0]\<close>, for a table whose names are not empty.\<close>

definition readEnum :: "config \<Rightarrow> serializer \<Rightarrow> error + (string \<times> serializer)" where
  "readEnum c s =
     and_then (readBits (bits c) s) (\<lambda>(index, s').
       Inr (if 0 \<le> index \<and> nat index < length (cvalues c) \<and> cvalues c ! nat index \<noteq> []
            then cvalues c ! nat index
            else (case cvalues c of [] \<Rightarrow> [] | first # _ \<Rightarrow> first), s'))"

subsection \<open>writeProperty, readProperty\<close>

text \<open>
  The \<open>switch (config.type)\<close>. The value has the kind that the table gives the property;
  the last equation covers the other pairs, which \<open>entity_get\<close> never produces.
\<close>

fun writeProperty :: "property \<Rightarrow> pval \<Rightarrow> serializer \<Rightarrow> error + serializer" where
  "writeProperty p v s =
     (let c = propertyMap p
      in case (ctype c, v) of
           (TUint8, PInt n) \<Rightarrow> writeUint8 n s
         | (TUint16, PInt n) \<Rightarrow> writeUint16 n s
         | (TFixed, PReal r) \<Rightarrow> writeFixed r c s
         | (TAngle, PReal r) \<Rightarrow> writeAngle r (bits c) s
         | (TEnum, PStr x) \<Rightarrow> writeEnum x c s
         | _ \<Rightarrow> Inr s)"

fun readProperty :: "property \<Rightarrow> serializer \<Rightarrow> error + (pval \<times> serializer)" where
  "readProperty p s =
     (let c = propertyMap p
      in case ctype c of
           TUint8 \<Rightarrow> and_then (readUint8 s) (\<lambda>(n, s'). Inr (PInt n, s'))
         | TUint16 \<Rightarrow> and_then (readUint16 s) (\<lambda>(n, s'). Inr (PInt n, s'))
         | TFixed \<Rightarrow> and_then (readFixed c s) (\<lambda>(r, s'). Inr (PReal r, s'))
         | TAngle \<Rightarrow> and_then (readAngle (bits c) s) (\<lambda>(r, s'). Inr (PReal r, s'))
         | TEnum \<Rightarrow> and_then (readEnum c s) (\<lambda>(x, s'). Inr (PStr x, s')))"

subsection \<open>serializeEntity, deserializeEntity\<close>

text \<open>The mask loop: bit \<open>bitIndex\<close> is set when the property is not \<open>undefined\<close>.\<close>

fun property_mask :: "property list \<Rightarrow> nat \<Rightarrow> entity \<Rightarrow> int \<Rightarrow> int" where
  "property_mask [] bitIndex e msk = msk"
| "property_mask (p # ps) bitIndex e msk =
     property_mask ps (bitIndex + 1) e
       (if entity_get e p \<noteq> None then msk OR push_bit bitIndex 1 else msk)"

fun write_properties :: "property list \<Rightarrow> entity \<Rightarrow> serializer \<Rightarrow> error + serializer" where
  "write_properties [] e s = Inr s"
| "write_properties (p # ps) e s =
     (case entity_get e p of
        None \<Rightarrow> write_properties ps e s
      | Some v \<Rightarrow> and_then (writeProperty p v s) (write_properties ps e))"

definition serializeEntity :: "entity \<Rightarrow> bool \<Rightarrow> serializer \<Rightarrow> error + serializer" where
  "serializeEntity e includeMask s =
     and_then (if includeMask then writeUint16 (property_mask props 0 e 0) s else Inr s)
       (write_properties props e)"

fun read_properties ::
  "property list \<Rightarrow> nat \<Rightarrow> int \<Rightarrow> entity \<Rightarrow> serializer \<Rightarrow> error + (entity \<times> serializer)" where
  "read_properties [] bitIndex msk e s = Inr (e, s)"
| "read_properties (p # ps) bitIndex msk e s =
     (if bit msk bitIndex
      then and_then (readProperty p s) (\<lambda>(v, s').
             read_properties ps (bitIndex + 1) msk (entity_set p v e) s')
      else read_properties ps (bitIndex + 1) msk e s)"

definition deserializeEntity :: "bool \<Rightarrow> serializer \<Rightarrow> error + (entity \<times> serializer)" where
  "deserializeEntity hasMask s =
     and_then (if hasMask then readUint16 s else Inr (0xFFFF, s)) (\<lambda>(msk, s').
       read_properties props 0 msk empty_entity s')"

subsection \<open>One entity through the codec\<close>

text \<open>
  \<open>serialize\<close> starts from a zero-filled \<open>ArrayBuffer\<close> with the cursor at 0, and
  reserves 32 bytes for an entity; \<open>deserialize\<close> reads the buffer from bit 0.
  \<open>encode_decode\<close> writes one entity with its mask and reads it back.
  \<open>before_health\<close> is the serializer while it encodes \<open>example_entity\<close>, after the
  mask and the properties up to \<open>angle\<close> are written and before \<open>health\<close> is.
\<close>

definition example_entity :: entity where
  "example_entity = \<lparr>e_id = Some 1, e_type = Some ''player'', e_x = Some 400, e_y = Some 300,
     e_angle = Some 0, e_health = Some 100, e_maxHealth = Some 100, e_width = Some 30,
     e_height = Some 30, e_owner = Some 0\<rparr>"

definition fresh_buffer :: serializer where
  "fresh_buffer = \<lparr>buffer = replicate 32 0, bitPosition = 0\<rparr>"

definition encode_decode :: "entity \<Rightarrow> error + entity" where
  "encode_decode e =
     and_then (serializeEntity e True fresh_buffer) (\<lambda>s.
     and_then (deserializeEntity True (s\<lparr>bitPosition := 0\<rparr>)) (\<lambda>(e', s'). Inr e'))"

definition before_health :: "error + serializer" where
  "before_health =
     and_then (writeUint16 (property_mask props 0 example_entity 0) fresh_buffer)
       (write_properties [P_id, P_type, P_x, P_y, P_angle] example_entity)"

definition encoded_bytes :: "8 word list" where
  "encoded_bytes = [0x03, 0xFF, 0x00, 0x01, 0x02, 0x8F, 0x61, 0xEB, 0x80, 0x64, 0x64, 0x1E, 0x1E,
                    0, 0, 0, 0, 0, 0, 0, 0, 0, 0, 0, 0, 0, 0, 0, 0, 0, 0, 0]"

definition bytes_before_health :: "8 word list" where
  "bytes_before_health = [0x03, 0xFF, 0x00, 0x01, 0x02, 0x8F, 0x61, 0xEB, 0x80, 0, 0, 0, 0,
                          0, 0, 0, 0, 0, 0, 0, 0, 0, 0, 0, 0, 0, 0, 0, 0, 0, 0, 0]"

section \<open>GameSession (gameSession.js)\<close>

text \<open>
  A JavaScript number that may be \<open>NaN\<close>; \<open>None\<close> stands for a property that was never
  assigned (\<open>undefined\<close>). \<open>x++\<close> converts the old value to a number, stores that number
  plus one and yields the converted old value.
\<close>

datatype jsnumber = Number real | NaN

definition to_number :: "jsnumber option \<Rightarrow> jsnumber" where
  "to_number v = (case v of None \<Rightarrow> NaN | Some n \<Rightarrow> n)"

definition post_increment :: "jsnumber option \<Rightarrow> jsnumber \<times> jsnumber option" where
  "post_increment v =
     (let oldValue = to_number v
      in (oldValue, Some (case oldValue of NaN \<Rightarrow> NaN | Number r \<Rightarrow> Number (r + 1))))"

record player =
  p_id :: string
  p_x :: real
  p_y :: real
  p_angle :: real
  p_health :: int
  p_maxHealth :: int
  p_weapon :: string
  p_ammo :: int
  p_speed :: real
  p_width :: real
  p_height :: real
  p_score :: int
  p_kills :: int
  p_deaths :: int
  p_lastShot :: int
  p_alive :: bool
  p_respawnTimer :: int

text \<open>\<open>i_keys\<close> lists the names \<open>k\<close> for which \<open>input.keys[k]\<close> is truthy.\<close>

record player_input =
  i_keys :: "string list"
  i_mouse_x :: real
  i_mouse_y :: real
  i_shooting :: bool
  i_sequence :: int

record bullet =
  b_id :: jsnumber
  b_owner :: string
  b_x :: real
  b_y :: real
  b_angle :: real
  b_speed :: real
  b_damage :: int
  b_width :: real
  b_height :: real
  b_maxDistance :: real
  b_distanceTraveled :: real

record enemy =
  en_id :: jsnumber
  en_type :: string
  en_x :: real
  en_y :: real
  en_angle :: real
  en_width :: real
  en_height :: real
  en_health :: int
  en_maxHealth :: int
  en_speed :: real
  en_damage :: int

text \<open>
  The session. The fields \<open>gs_...\<close>, the three maps, \<open>wave\<close> and \<open>enemiesRemaining\<close>
  are those of \<open>this.gameState\<close>; \<open>nextEnemyId\<close> and \<open>nextBulletId\<close> are the properties
  \<open>this.nextEnemyId\<close> and \<open>this.nextBulletId\<close> of the session itself, which the
  constructor does not assign.
\<close>

record session =
  running :: bool
  gs_tick :: int
  players :: "(string \<times> player) list"
  enemies :: "(jsnumber \<times> enemy) list"
  bullets :: "(jsnumber \<times> bullet) list"
  wave :: nat
  enemiesRemaining :: int
  gs_nextEnemyId :: int
  gs_nextBulletId :: int
  gs_nextPowerupId :: int
  playerInputs :: "(string \<times> player_input) list"
  nextEnemyId :: "jsnumber option"
  nextBulletId :: "jsnumber option"

subsection \<open>The constructor\<close>

definition getSpawnPoints :: "(real \<times> real) list" where
  "getSpawnPoints = [(400, 300), (1200, 300), (400, 900), (1200, 900),
                     (800, 600), (800, 300), (400, 600), (1200, 600)]"

definition new_player :: "string \<Rightarrow> real \<times> real \<Rightarrow> player" where
  "new_player playerId spawn =
     \<lparr>p_id = playerId, p_x = fst spawn, p_y = snd spawn, p_angle = 0, p_health = 100,
      p_maxHealth = 100, p_weapon = ''pistol'', p_ammo = - 1, p_speed = 4, p_width = 30,
      p_height = 30, p_score = 0, p_kills = 0, p_deaths = 0, p_lastShot = 0, p_alive = True,
      p_respawnTimer = 0\<rparr>"

definition new_input :: player_input where
  "new_input = \<lparr>i_keys = [], i_mouse_x = 0, i_mouse_y = 0, i_shooting = False, i_sequence = 0\<rparr>"

fun initializePlayers :: "string list \<Rightarrow> nat \<Rightarrow> session \<Rightarrow> session" where
  "initializePlayers [] spawnIndex s = s"
| "initializePlayers (playerId # rest) spawnIndex s =
     initializePlayers rest (spawnIndex + 1)
       (s\<lparr>players := AList.update playerId
              (new_player playerId (getSpawnPoints ! (spawnIndex mod length getSpawnPoints)))
              (players s),
          playerInputs := AList.update playerId new_input (playerInputs s)\<rparr>)"

text \<open>\<open>new GameSession(room, io)\<close>, for the ids of \<open>room.players\<close> in order.\<close>

definition new_session :: "string list \<Rightarrow> session" where
  "new_session roomPlayers =
     initializePlayers roomPlayers 0
       \<lparr>running = False, gs_tick = 0, players = [], enemies = [], bullets = [], wave = 1,
        enemiesRemaining = 0, gs_nextEnemyId = 1, gs_nextBulletId = 1, gs_nextPowerupId = 1,
        playerInputs = [], nextEnemyId = None, nextBulletId = None\<rparr>"

subsection \<open>spawnWave, checkWaveCompletion\<close>

text \<open>
  The loop of \<open>spawnWave\<close>, from \<open>i\<close> on; \<open>random i\<close> is the value of \<open>Math.random()\<close>
  in round \<open>i\<close>.
\<close>

function spawn_loop :: "(nat \<Rightarrow> real) \<Rightarrow> nat \<Rightarrow> nat \<Rightarrow> session \<Rightarrow> session" where
  "spawn_loop random enemyCount i s =
     (if i < enemyCount
      then (let angle = (pi * 2 * real i) / real enemyCount;
                distance = 400 + random i * 200;
                (newId, counter) = post_increment (nextEnemyId s);
                e = \<lparr>en_id = newId, en_type = ''zombie'',
                     en_x = 800 + cos angle * distance, en_y = 600 + sin angle * distance,
                     en_angle = 0, en_width = 40, en_height = 40,
                     en_health = 50 + int (wave s) * 10, en_maxHealth = 50 + int (wave s) * 10,
                     en_speed = 1 + real (wave s) * 0.1, en_damage = 10\<rparr>
            in spawn_loop random enemyCount (i + 1)
                 (s\<lparr>nextEnemyId := counter, enemies := AList.update (en_id e) e (enemies s)\<rparr>))
      else s)"
  by pat_completeness auto

termination
  by (relation "measure (\<lambda>(random, enemyCount, i, s). enemyCount - i)") auto

declare spawn_loop.simps [simp del]

definition spawnWave :: "(nat \<Rightarrow> real) \<Rightarrow> session \<Rightarrow> session" where
  "spawnWave random s =
     (let enemyCount = 5 + wave s * 2
      in spawn_loop random enemyCount 0 (s\<lparr>enemiesRemaining := int enemyCount\<rparr>))"

definition checkWaveCompletion :: "(nat \<Rightarrow> real) \<Rightarrow> session \<Rightarrow> session" where
  "checkWaveCompletion random s =
     (if enemiesRemaining s = 0 then spawnWave random (s\<lparr>wave := wave s + 1\<rparr>) else s)"

subsection \<open>updatePlayers, playerShoot\<close>

definition key_down :: "player_input \<Rightarrow> string \<Rightarrow> bool" where
  "key_down inp k = (k \<in> set (i_keys inp))"

text \<open>The direction that the held keys give: \<open>dx\<close> and \<open>dy\<close> before normalisation.\<close>

definition input_dy :: "player_input \<Rightarrow> real" where
  "input_dy inp =
     (let dy = 0;
          dy = (if key_down inp ''w'' \<or> key_down inp ''ArrowUp'' then dy - 1 else dy);
          dy = (if key_down inp ''s'' \<or> key_down inp ''ArrowDown'' then dy + 1 else dy)
      in dy)"

definition input_dx :: "player_input \<Rightarrow> real" where
  "input_dx inp =
     (let dx = 0;
          dx = (if key_down inp ''a'' \<or> key_down inp ''ArrowLeft'' then dx - 1 else dx);
          dx = (if key_down inp ''d'' \<or> key_down inp ''ArrowRight'' then dx + 1 else dx)
      in dx)"

text \<open>\<open>dx\<close> and \<open>dy\<close> after the normalisation of diagonal movement.\<close>

definition movement :: "player_input \<Rightarrow> real \<times> real" where
  "movement inp =
     (let dx = input_dx inp;
          dy = input_dy inp
      in if dx \<noteq> 0 \<and> dy \<noteq> 0 then (dx * 0.707, dy * 0.707) else (dx, dy))"

text \<open>Movement of one player in \<open>updatePlayers\<close>: direction, step, clamp to the world.\<close>

definition move_player :: "real \<Rightarrow> player_input \<Rightarrow> player \<Rightarrow> player" where
  "move_player deltaTime inp p =
     (let (dx, dy) = movement inp;
          x = p_x p + dx * p_speed p * deltaTime * 60;
          y = p_y p + dy * p_speed p * deltaTime * 60;
          x = max (p_width p / 2) (min (1600 - p_width p / 2) x);
          y = max (p_height p / 2) (min (1200 - p_height p / 2) y)
      in p\<lparr>p_x := x, p_y := y\<rparr>)"

text \<open>\<open>Math.atan2(y, x)\<close>\<close>

definition atan2 :: "real \<Rightarrow> real \<Rightarrow> real" where
  "atan2 y x =
     (if x > 0 then arctan (y / x)
      else if x < 0 \<and> y \<ge> 0 then arctan (y / x) + pi
      else if x < 0 then arctan (y / x) - pi
      else if y > 0 then pi / 2
      else if y < 0 then - pi / 2
      else 0)"

text \<open>
  \<open>playerShoot(playerId, player)\<close> at the time \<open>now\<close>. The player object is changed in
  place; the result is the player and the session. \<open>now\<close> is \<open>Date.now()\<close>.
\<close>

definition playerShoot :: "int \<Rightarrow> string \<Rightarrow> player \<Rightarrow> session \<Rightarrow> player \<times> session" where
  "playerShoot now playerId p s =
     (let weaponCooldown = 200
      in if now - p_lastShot p < weaponCooldown then (p, s)
         else (let p = p\<lparr>p_lastShot := now\<rparr>;
                   (bulletId, counter) = post_increment (nextBulletId s);
                   b = \<lparr>b_id = bulletId, b_owner = playerId,
                        b_x = p_x p + cos (p_angle p) * 20, b_y = p_y p + sin (p_angle p) * 20,
                        b_angle = p_angle p, b_speed = 10, b_damage = 25, b_width = 4,
                        b_height = 4, b_maxDistance = 500, b_distanceTraveled = 0\<rparr>
               in (p, s\<lparr>nextBulletId := counter,
                         bullets := AList.update bulletId b (bullets s)\<rparr>)))"

text \<open>
  One round of the loop of \<open>updatePlayers\<close>, for the player stored under \<open>playerId\<close>;
  the rounds of one call share the clock value \<open>now\<close>.
\<close>

definition update_player :: "real \<Rightarrow> int \<Rightarrow> string \<Rightarrow> session \<Rightarrow> session" where
  "update_player deltaTime now playerId s =
     (case (map_of (players s) playerId, map_of (playerInputs s) playerId) of
        (Some p, Some inp) \<Rightarrow>
          (if \<not> p_alive p then s
           else (let p = move_player deltaTime inp p;
                     p = p\<lparr>p_angle := atan2 (i_mouse_y inp - p_y p) (i_mouse_x inp - p_x p)\<rparr>;
                     (p, s) = (if i_shooting inp then playerShoot now playerId p s else (p, s))
                 in s\<lparr>players := AList.update playerId p (players s)\<rparr>))
      | _ \<Rightarrow> s)"

definition updatePlayers :: "real \<Rightarrow> int \<Rightarrow> session \<Rightarrow> session" where
  "updatePlayers deltaTime now s = fold (update_player deltaTime now) (map fst (players s)) s"

subsection \<open>Runs of a session for a room of two\<close>

text \<open>
  \<open>first_shot\<close> and \<open>second_shot\<close>: player \<open>a\<close> of a new session shoots at the times
  1000 and 1300. \<open>diagonal_input\<close> holds \<open>w\<close> and \<open>d\<close>, \<open>right_input\<close> holds \<open>d\<close> alone.
  \<open>diagonal_session\<close> is the new session after player \<open>a\<close> has sent \<open>diagonal_input\<close>.
\<close>

definition first_shot :: "player \<times> session" where
  "first_shot = playerShoot 1000 ''a'' (new_player ''a'' (400, 300)) (new_session [''a'', ''b''])"

definition second_shot :: "player \<times> session" where
  "second_shot = playerShoot 1300 ''a'' (fst first_shot) (snd first_shot)"

definition diagonal_input :: player_input where
  "diagonal_input = new_input\<lparr>i_keys := [''w'', ''d'']\<rparr>"

definition right_input :: player_input where
  "right_input = new_input\<lparr>i_keys := [''d'']\<rparr>"

definition diagonal_session :: session where
  "diagonal_session =
     (new_session [''a'', ''b''])\<lparr>playerInputs := [(''a'', diagonal_input), (''b'', new_input)]\<rparr>"

section \<open>NetworkEntityManager (networkEntity.js)\<close>

text \<open>
  The game object that the manager tracks: its id, its position and angle, and its
  \<open>speed\<close>, which may be missing (\<open>None\<close>). An input holds the truthiness of its four
  direction flags and the mouse coordinates, each of which may be \<open>undefined\<close>.
\<close>

record game_entity =
  ent_id :: val
  ent_x :: real
  ent_y :: real
  ent_angle :: real
  ent_speed :: "real option"

record move_input =
  inp_up :: bool
  inp_down :: bool
  inp_left :: bool
  inp_right :: bool
  mouseX :: "real option"
  mouseY :: "real option"

record input_frame =
  frame_sequence :: int
  frame_input :: move_input
  frame_deltaTime :: real

record local_data =
  ld_entity :: game_entity
  isLocal :: bool

text \<open>The position of an entity in the server state, as \<open>reconcileWithServer\<close> reads it.\<close>

record server_entity =
  server_x :: real
  server_y :: real

record manager =
  localEntities :: "(val \<times> local_data) list"
  inputBuffer :: "input_frame list"
  lastAcknowledgedInput :: int
  clientTick :: int

subsection \<open>applyInput\<close>

text \<open>\<open>entity.speed || 4\<close>: a missing speed and the speed 0 both give 4.\<close>

definition speed_or_4 :: "game_entity \<Rightarrow> real" where
  "speed_or_4 e = (case ent_speed e of None \<Rightarrow> 4 | Some v \<Rightarrow> (if v \<noteq> 0 then v else 4))"

definition applyInput :: "game_entity \<Rightarrow> move_input \<Rightarrow> real \<Rightarrow> game_entity" where
  "applyInput e inp deltaTime =
     (let speed = speed_or_4 e;
          e = (if inp_up inp then e\<lparr>ent_y := ent_y e - speed * deltaTime\<rparr> else e);
          e = (if inp_down inp then e\<lparr>ent_y := ent_y e + speed * deltaTime\<rparr> else e);
          e = (if inp_left inp then e\<lparr>ent_x := ent_x e - speed * deltaTime\<rparr> else e);
          e = (if inp_right inp then e\<lparr>ent_x := ent_x e + speed * deltaTime\<rparr> else e)
      in case (mouseX inp, mouseY inp) of
           (Some mx, Some my) \<Rightarrow> e\<lparr>ent_angle := atan2 (my - ent_y e) (mx - ent_x e)\<rparr>
         | _ \<Rightarrow> e)"

subsection \<open>reconcileWithServer\<close>

text \<open>The search for the local player: the entity of the first entry with \<open>isLocal\<close>.\<close>

fun find_local :: "(val \<times> local_data) list \<Rightarrow> game_entity option" where
  "find_local [] = None"
| "find_local ((k, d) # rest) = (if isLocal d then Some (ld_entity d) else find_local rest)"

text \<open>The local player is changed in place: its entry gets the new entity.\<close>

fun store_local :: "game_entity \<Rightarrow> (val \<times> local_data) list \<Rightarrow> (val \<times> local_data) list" where
  "store_local e [] = []"
| "store_local e ((k, d) # rest) =
     (if isLocal d then (k, d\<lparr>ld_entity := e\<rparr>) # rest else (k, d) # store_local e rest)"

text \<open>
  The loop \<open>while (i < this.inputBuffer.length)\<close>: a frame that the server has processed
  is spliced out and \<open>i\<close> stays; any other frame is applied and \<open>i\<close> moves on.
\<close>

function replay_loop ::
  "int \<Rightarrow> nat \<Rightarrow> input_frame list \<Rightarrow> game_entity \<Rightarrow> input_frame list \<times> game_entity" where
  "replay_loop lastProcessedInput i buf e =
     (if i < length buf
      then (let inputFrame = buf ! i
            in if frame_sequence inputFrame \<le> lastProcessedInput
               then replay_loop lastProcessedInput i (take i buf @ drop (i + 1) buf) e
               else replay_loop lastProcessedInput (i + 1) buf
                      (applyInput e (frame_input inputFrame) (frame_deltaTime inputFrame)))
      else (buf, e))"
  by pat_completeness auto

termination
  by (relation "measure (\<lambda>(lastProcessedInput, i, buf, e). length buf - i)") auto

declare replay_loop.simps [simp del]

definition reconcileWithServer ::
  "(val \<times> server_entity) list \<Rightarrow> int \<Rightarrow> manager \<Rightarrow> manager" where
  "reconcileWithServer serverEntities lastProcessedInput m =
     (let m = m\<lparr>lastAcknowledgedInput := lastProcessedInput\<rparr>
      in case find_local (localEntities m) of
           None \<Rightarrow> m
         | Some localPlayer \<Rightarrow>
             (if \<not> truthy (ent_id localPlayer) then m
              else (case map_of serverEntities (ent_id localPlayer) of
                      None \<Rightarrow> m
                    | Some serverPlayer \<Rightarrow>
                        (let localPlayer = localPlayer\<lparr>ent_x := server_x serverPlayer,
                                                       ent_y := server_y serverPlayer\<rparr>;
                             (buf, localPlayer) =
                               replay_loop lastProcessedInput 0 (inputBuffer m) localPlayer
                         in m\<lparr>inputBuffer := buf,
                              localEntities := store_local localPlayer (localEntities m)\<rparr>))))"

subsection \<open>A manager with three buffered frames\<close>

text \<open>
  The local player has the id 1 and no \<open>speed\<close> of its own. The frames 1 and 2 move it
  right and frame 3 moves it down, each for half a time unit; the server reports the
  position (104, 100).
\<close>

definition example_frame :: "int \<Rightarrow> bool \<Rightarrow> bool \<Rightarrow> input_frame" where
  "example_frame n goes_right goes_down =
     \<lparr>frame_sequence = n,
      frame_input = \<lparr>inp_up = False, inp_down = goes_down, inp_left = False,
                      inp_right = goes_right, mouseX = None, mouseY = None\<rparr>,
      frame_deltaTime = 1 / 2\<rparr>"

definition example_local :: game_entity where
  "example_local = \<lparr>ent_id = VNum 1, ent_x = 110, ent_y = 102, ent_angle = 0, ent_speed = None\<rparr>"

definition example_manager :: manager where
  "example_manager =
     \<lparr>localEntities = [(VNum 1, \<lparr>ld_entity = example_local, isLocal = True\<rparr>)],
      inputBuffer = [example_frame 1 True False, example_frame 2 True False,
                     example_frame 3 False True],
      lastAcknowledgedInput = 0, clientTick = 3\<rparr>"

definition example_server :: "(val \<times> server_entity) list" where
  "example_server = [(VNum 1, \<lparr>server_x = 104, server_y = 100\<rparr>)]"

section \<open>GameServer (gameServer.js)\<close>

text \<open>
  A room of the room manager, with the fields that the ready and start handlers use, and
  the server: its rooms, its game sessions, and the events it has emitted so far.
\<close>

record room_player =
  rp_name :: string
  rp_ready :: bool

record room =
  host :: string
  room_players :: "(string \<times> room_player) list"
  spectators :: "string list"
  started :: bool

datatype event =
  SocketError string string
  | PlayerReadyUpdate string string bool
  | AllPlayersReady string
  | GameStarted string

record socket =
  socket_id :: string
  data_roomId :: "string option"

record server =
  rooms :: "(string \<times> room) list"
  gameSessions :: "(string \<times> session) list"
  emitted :: "event list"

text \<open>\<open>roomManager.getRoom(socket.data.roomId)\<close>\<close>

definition getRoom :: "server \<Rightarrow> socket \<Rightarrow> (string \<times> room) option" where
  "getRoom srv sock =
     (case data_roomId sock of
        None \<Rightarrow> None
      | Some roomId \<Rightarrow> map_option (\<lambda>r. (roomId, r)) (map_of (rooms srv) roomId))"

text \<open>\<open>Array.from(room.players.values()).every(p => p.ready)\<close>\<close>

definition allReady :: "room \<Rightarrow> bool" where
  "allReady r = list_all (\<lambda>(playerId, p). rp_ready p) (room_players r)"

subsection \<open>handlePlayerReady\<close>

definition handlePlayerReady :: "socket \<Rightarrow> bool \<Rightarrow> server \<Rightarrow> server" where
  "handlePlayerReady sock ready srv =
     (case getRoom srv sock of
        None \<Rightarrow> srv
      | Some (roomId, r) \<Rightarrow>
          (case map_of (room_players r) (socket_id sock) of
             None \<Rightarrow> srv
           | Some p \<Rightarrow>
               (let r = r\<lparr>room_players :=
                           AList.update (socket_id sock) (p\<lparr>rp_ready := ready\<rparr>) (room_players r)\<rparr>;
                    srv = srv\<lparr>rooms := AList.update roomId r (rooms srv),
                              emitted := emitted srv @ [PlayerReadyUpdate roomId (socket_id sock) ready]\<rparr>
                in if allReady r \<and> length (room_players r) \<ge> 2
                   then srv\<lparr>emitted := emitted srv @ [AllPlayersReady roomId]\<rparr>
                   else srv)))"

subsection \<open>handleStartGame\<close>

text \<open>\<open>GameSession.start()\<close>: the session runs from now on and the first wave is spawned.\<close>

definition start :: "(nat \<Rightarrow> real) \<Rightarrow> session \<Rightarrow> session" where
  "start random s = (if running s then s else spawnWave random (s\<lparr>running := True\<rparr>))"

definition handleStartGame :: "(nat \<Rightarrow> real) \<Rightarrow> socket \<Rightarrow> server \<Rightarrow> server" where
  "handleStartGame random sock srv =
     (case getRoom srv sock of
        None \<Rightarrow> srv
      | Some (roomId, r) \<Rightarrow>
          (if host r \<noteq> socket_id sock
           then srv\<lparr>emitted := emitted srv
                       @ [SocketError (socket_id sock) ''Only the host can start the game'']\<rparr>
           else if \<not> allReady r
           then srv\<lparr>emitted := emitted srv
                       @ [SocketError (socket_id sock) ''Not all players are ready'']\<rparr>
           else if map_of (gameSessions srv) roomId = None
           then (let gameSession = start random (new_session (map fst (room_players r)))
                 in srv\<lparr>gameSessions := AList.update roomId gameSession (gameSessions srv),
                        rooms := AList.update roomId (r\<lparr>started := True\<rparr>) (rooms srv),
                        emitted := emitted srv @ [GameStarted roomId]\<rparr>)
           else srv))"

subsection \<open>A room with its host alone\<close>

text \<open>
  The server after \<open>create-room\<close> by the socket \<open>h\<close>: the room \<open>r1\<close> has the host as its
  only player, not ready yet. \<open>host_ready\<close> is the server after the host has signalled
  ready.
\<close>

definition host_socket :: socket where
  "host_socket = \<lparr>socket_id = ''h'', data_roomId = Some ''r1''\<rparr>"

definition lobby_of_one :: server where
  "lobby_of_one =
     \<lparr>rooms = [(''r1'', \<lparr>host = ''h'',
                          room_players = [(''h'', \<lparr>rp_name = ''Host'', rp_ready = False\<rparr>)],
                          spectators = [], started = False\<rparr>)],
      gameSessions = [], emitted = []\<rparr>"

definition host_ready :: server where
  "host_ready = handlePlayerReady host_socket True lobby_of_one"

section \<open>Properties of the state store\<close>

subsection \<open>Angle interpolation\<close>

lemma interpolateAngle_350_10: "interpolateAngle (350 * pi / 180) (10 * pi / 180) (1 / 2) = 2 * pi"
  using pi_gt_zero by (simp add: interpolateAngle_def Let_def field_simps)

lemma interpolateAngle_above:
  "pi < to - from \<Longrightarrow> interpolateAngle from to alpha = from + (to - from - 2 * pi) * alpha"
  using pi_gt_zero by (simp add: interpolateAngle_def Let_def)

lemma interpolateAngle_below:
  assumes "to - from < - pi"
  shows "interpolateAngle from to alpha = from + (to - from + 2 * pi) * alpha"
proof -
  from assms have "\<not> pi < to - from"
    using pi_gt_zero by linarith
  with assms show ?thesis
    by (simp add: interpolateAngle_def Let_def)
qed

lemma interpolateAngle_within:
  "\<bar>to - from\<bar> \<le> pi \<Longrightarrow> interpolateAngle from to alpha = from + (to - from) * alpha"
  by (auto simp add: interpolateAngle_def Let_def)

text \<open>
  C7: interpolating from 350 degrees to 10 degrees at alpha = 0.5 yields the angle of 0
  degrees, not that of 180 degrees: the result is \<open>2 * pi\<close>, a full turn, with the cosine
  and sine of 0. A raw delta above \<open>pi\<close> is lowered by \<open>2 * pi\<close> and one below \<open>- pi\<close>
  is raised by \<open>2 * pi\<close> before blending. So for every raw delta of at most a turn and
  a half in magnitude, which covers all angles in \<open>[0, 2 * pi)\<close> and all in
  \<open>[- pi, pi]\<close>, the blend runs along a delta that differs from the raw one by a
  multiple of \<open>2 * pi\<close> and has magnitude at most \<open>pi\<close>: the shortest angular path.
\<close>

theorem interpolateAngle_shortest_path:
  "interpolateAngle (350 * pi / 180) (10 * pi / 180) (1 / 2) = 2 * pi
   \<and> cos (interpolateAngle (350 * pi / 180) (10 * pi / 180) (1 / 2)) = cos 0
   \<and> sin (interpolateAngle (350 * pi / 180) (10 * pi / 180) (1 / 2)) = sin 0
   \<and> cos (interpolateAngle (350 * pi / 180) (10 * pi / 180) (1 / 2)) \<noteq> cos pi
   \<and> (pi < to - from \<longrightarrow>
         interpolateAngle from to alpha = from + (to - from - 2 * pi) * alpha)
   \<and> (to - from < - pi \<longrightarrow>
         interpolateAngle from to alpha = from + (to - from + 2 * pi) * alpha)
   \<and> (\<bar>to - from\<bar> \<le> 3 * pi \<longrightarrow>
         (\<exists>d. (d = to - from \<or> d = to - from - 2 * pi \<or> d = to - from + 2 * pi)
              \<and> \<bar>d\<bar> \<le> pi
              \<and> interpolateAngle from to alpha = from + d * alpha))"
proof (intro conjI impI)
  show "interpolateAngle (350 * pi / 180) (10 * pi / 180) (1 / 2) = 2 * pi"
    by (rule interpolateAngle_350_10)
  show "cos (interpolateAngle (350 * pi / 180) (10 * pi / 180) (1 / 2)) = cos 0"
    unfolding interpolateAngle_350_10 by simp
  show "sin (interpolateAngle (350 * pi / 180) (10 * pi / 180) (1 / 2)) = sin 0"
    unfolding interpolateAngle_350_10 by simp
  show "cos (interpolateAngle (350 * pi / 180) (10 * pi / 180) (1 / 2)) \<noteq> cos pi"
    unfolding interpolateAngle_350_10 by simp
  show "interpolateAngle from to alpha = from + (to - from - 2 * pi) * alpha"
    if "pi < to - from"
    using that by (rule interpolateAngle_above)
  show "interpolateAngle from to alpha = from + (to - from + 2 * pi) * alpha"
    if "to - from < - pi"
    using that by (rule interpolateAngle_below)
  show "\<exists>d. (d = to - from \<or> d = to - from - 2 * pi \<or> d = to - from + 2 * pi)
          \<and> \<bar>d\<bar> \<le> pi
          \<and> interpolateAngle from to alpha = from + d * alpha"
    if small: "\<bar>to - from\<bar> \<le> 3 * pi"
  proof -
    consider (hi) "to - from > pi" | (lo) "to - from < - pi" | (mid) "\<bar>to - from\<bar> \<le> pi"
      by linarith
    then show ?thesis
    proof cases
      case hi
      with small have "\<bar>to - from - 2 * pi\<bar> \<le> pi" by linarith
      with interpolateAngle_above [OF hi, of alpha] show ?thesis by blast
    next
      case lo
      with small have "\<bar>to - from + 2 * pi\<bar> \<le> pi" by linarith
      with interpolateAngle_below [OF lo, of alpha] show ?thesis by blast
    next
      case mid
      with interpolateAngle_within [OF mid, of alpha] show ?thesis by blast
    qed
  qed
qed

theorem interpolateAngle_shortest_path_witness:
  "\<bar>10 * pi / 180 - 350 * pi / 180\<bar> \<le> 3 * pi \<and>
   (\<exists>d. (d = 10 * pi / 180 - 350 * pi / 180 \<or> d = 10 * pi / 180 - 350 * pi / 180 - 2 * pi
          \<or> d = 10 * pi / 180 - 350 * pi / 180 + 2 * pi)
        \<and> \<bar>d\<bar> \<le> pi
        \<and> interpolateAngle (350 * pi / 180) (10 * pi / 180) (1 / 2) = 350 * pi / 180 + d * (1 / 2))"
proof -
  have h: "\<bar>10 * pi / 180 - 350 * pi / 180\<bar> \<le> 3 * pi"
    using pi_gt_zero by (simp add: abs_if field_simps)
  note t = interpolateAngle_shortest_path [of "10 * pi / 180" "350 * pi / 180" "1 / 2"]
  note t7 = t [THEN conjunct2, THEN conjunct2, THEN conjunct2, THEN conjunct2, THEN conjunct2,
      THEN conjunct2, rule_format, OF h]
  from h t7 show ?thesis by (rule conjI)
qed

subsection \<open>updateEntity\<close>

lemma get_prop_set_prop:
  "get_prop (set_prop ob k v) k' = (if k' = k then v else get_prop ob k')"
  by (simp add: get_prop_def set_prop_def update_conv')

lemma not_strict_neq_eq: "\<not> strict_neq a b \<Longrightarrow> a = b"
  by (simp add: strict_neq_def)

lemma update_fields_get:
  "get_prop (fst (update_fields entity updates keys changed)) k =
     (if k \<in> set keys \<and> strict_neq (get_prop entity k) (get_prop updates k)
      then get_prop updates k else get_prop entity k)"
proof (induction keys arbitrary: entity changed)
  case Nil
  show ?case by simp
next
  case (Cons key keys)
  show ?case
  proof (cases "strict_neq (get_prop entity key) (get_prop updates key)")
    case True
    then show ?thesis
      using Cons.IH [of "set_prop entity key (get_prop updates key)" True]
      by (auto simp add: get_prop_set_prop)
  next
    case False
    then show ?thesis
      using Cons.IH [of entity changed] by auto
  qed
qed

lemma update_fields_True: "snd (update_fields entity updates keys True)"
  by (induction keys arbitrary: entity) auto

lemma update_fields_changed:
  "snd (update_fields entity updates keys changed) =
     (changed \<or> (\<exists>key\<in>set keys. strict_neq (get_prop entity key) (get_prop updates key)))"
  by (induction keys arbitrary: changed) (auto simp add: update_fields_True)

lemma update_fields_unchanged:
  "\<not> snd (update_fields entity updates keys changed) \<Longrightarrow>
     fst (update_fields entity updates keys changed) = entity"
  by (induction keys arbitrary: changed) (auto simp add: update_fields_True split: if_splits)

lemma store_at_tick3_value:
  "store_at_tick3 = \<lparr>tick = 3, entities = [(VNum 1, stored_player 400 0)], lastEntityId = 1,
      snapshots = [], maxSnapshots = 60, lastSentState = None\<rparr>"
  by (simp add: store_at_tick3_def applyDelta_def addEntity_def generateEntityId_def
      newGameState_def example_player_def stored_player_def get_prop_def js_or_def Let_def)

text \<open>
  C8, as stated: with the id present, \<open>updateEntity\<close> writes only the listed fields
  that differ. The code also writes \<open>lastUpdate\<close>: updating \<open>x\<close> alone at tick 3
  changes the entity's \<open>lastUpdate\<close> from 0 to 3, a field the update does not list.
\<close>

theorem updateEntity_lastUpdate_counterexample:
  "''lastUpdate'' \<notin> set (map fst [(''x'', VNum 405)]) \<and>
   map_of (entities store_at_tick3) (VNum 1) = Some (stored_player 400 0) \<and>
   updateEntity (VNum 1) [(''x'', VNum 405)] store_at_tick3 =
     (True, store_at_tick3\<lparr>entities := [(VNum 1, stored_player 405 3)]\<rparr>) \<and>
   get_prop (stored_player 400 0) ''lastUpdate'' = VNum 0 \<and>
   get_prop (stored_player 405 3) ''lastUpdate'' = VNum 3"
  by (simp add: store_at_tick3_value updateEntity_def stored_player_def get_prop_def
      set_prop_def strict_neq_def)

text \<open>
  C8, amended: with the id absent, \<open>updateEntity\<close> returns false and leaves the store
  as it is. With the id present, only that entry of the table changes. The result is true
  exactly when some listed field \<open>!==\<close> the current one (a \<open>NaN\<close> always does). Every
  field other than \<open>lastUpdate\<close> holds the listed value where it is listed and differs,
  and its former value otherwise. When the result is true \<open>lastUpdate\<close> is set to the
  current tick; when it is false the entity and the whole store are unchanged.
\<close>

theorem updateEntity_spec:
  "(map_of (entities gs) eid = None \<longrightarrow> updateEntity eid updates gs = (False, gs)) \<and>
   (\<forall>entity. map_of (entities gs) eid = Some entity \<longrightarrow>
     (\<exists>entity'.
        fst (updateEntity eid updates gs) =
          (\<exists>key\<in>set (map fst updates). strict_neq (get_prop entity key) (get_prop updates key)) \<and>
        (\<not> fst (updateEntity eid updates gs) \<longrightarrow> snd (updateEntity eid updates gs) = gs) \<and>
        snd (updateEntity eid updates gs) = gs\<lparr>entities := AList.update eid entity' (entities gs)\<rparr> \<and>
        (\<forall>key. key \<noteq> ''lastUpdate'' \<longrightarrow>
           get_prop entity' key =
             (if key \<in> set (map fst updates) \<and> strict_neq (get_prop entity key) (get_prop updates key)
              then get_prop updates key else get_prop entity key)) \<and>
        (if fst (updateEntity eid updates gs)
         then get_prop entity' ''lastUpdate'' = VNum (of_int (tick gs))
         else entity' = entity)))"
proof (intro conjI allI impI)
  assume "map_of (entities gs) eid = None"
  then show "updateEntity eid updates gs = (False, gs)"
    by (simp add: updateEntity_def)
next
  fix entity
  assume present: "map_of (entities gs) eid = Some entity"
  obtain e1 changed where uf: "update_fields entity updates (map fst updates) False = (e1, changed)"
    by (cases "update_fields entity updates (map fst updates) False")
  define e2 where "e2 = (if changed then set_prop e1 ''lastUpdate'' (VNum (of_int (tick gs))) else e1)"
  have res: "updateEntity eid updates gs = (changed, gs\<lparr>entities := AList.update eid e2 (entities gs)\<rparr>)"
    using present uf by (simp add: updateEntity_def e2_def Let_def)
  have ch: "changed = (\<exists>key\<in>set (map fst updates). strict_neq (get_prop entity key) (get_prop updates key))"
    using update_fields_changed [of entity updates "map fst updates" False] uf by simp
  have e1_get: "get_prop e1 k =
      (if k \<in> set (map fst updates) \<and> strict_neq (get_prop entity k) (get_prop updates k)
       then get_prop updates k else get_prop entity k)" for k
    using update_fields_get [of entity updates "map fst updates" False k] uf by simp
  have same: "\<not> changed \<Longrightarrow> e2 = entity"
    using update_fields_unchanged [of entity updates "map fst updates" False] uf
    by (simp add: e2_def)
  have noop: "\<not> changed \<Longrightarrow> gs\<lparr>entities := AList.update eid e2 (entities gs)\<rparr> = gs"
    using same present by (simp add: update_triv)
  have fields: "key \<noteq> ''lastUpdate'' \<Longrightarrow> get_prop e2 key =
      (if key \<in> set (map fst updates) \<and> strict_neq (get_prop entity key) (get_prop updates key)
       then get_prop updates key else get_prop entity key)" for key
    using e1_get [of key] by (simp add: e2_def get_prop_set_prop)
  have stamp: "changed \<Longrightarrow> get_prop e2 ''lastUpdate'' = VNum (of_int (tick gs))"
    by (simp add: e2_def get_prop_set_prop)
  show "\<exists>entity'.
        fst (updateEntity eid updates gs) =
          (\<exists>key\<in>set (map fst updates). strict_neq (get_prop entity key) (get_prop updates key)) \<and>
        (\<not> fst (updateEntity eid updates gs) \<longrightarrow> snd (updateEntity eid updates gs) = gs) \<and>
        snd (updateEntity eid updates gs) = gs\<lparr>entities := AList.update eid entity' (entities gs)\<rparr> \<and>
        (\<forall>key. key \<noteq> ''lastUpdate'' \<longrightarrow>
           get_prop entity' key =
             (if key \<in> set (map fst updates) \<and> strict_neq (get_prop entity key) (get_prop updates key)
              then get_prop updates key else get_prop entity key)) \<and>
        (if fst (updateEntity eid updates gs)
         then get_prop entity' ''lastUpdate'' = VNum (of_int (tick gs))
         else entity' = entity)"
  proof (intro exI [of _ e2] conjI allI impI)
    show "fst (updateEntity eid updates gs) =
          (\<exists>key\<in>set (map fst updates). strict_neq (get_prop entity key) (get_prop updates key))"
      using res ch by simp
    show "snd (updateEntity eid updates gs) = gs" if "\<not> fst (updateEntity eid updates gs)"
      using that res noop by simp
    show "snd (updateEntity eid updates gs) = gs\<lparr>entities := AList.update eid e2 (entities gs)\<rparr>"
      using res by simp
    show "get_prop e2 key =
             (if key \<in> set (map fst updates) \<and> strict_neq (get_prop entity key) (get_prop updates key)
              then get_prop updates key else get_prop entity key)" if "key \<noteq> ''lastUpdate''" for key
      using that by (rule fields)
    show "if fst (updateEntity eid updates gs)
         then get_prop e2 ''lastUpdate'' = VNum (of_int (tick gs))
         else e2 = entity"
      using res stamp same by simp
  qed
qed

theorem updateEntity_spec_witness:
  "map_of (entities store_at_tick3) (VNum 1) = Some (stored_player 400 0) \<and>
     (\<exists>entity'.
        fst (updateEntity (VNum 1) [(''x'', VNum 405)] store_at_tick3) =
          (\<exists>key\<in>set (map fst [(''x'', VNum 405)]).
              strict_neq (get_prop (stored_player 400 0) key) (get_prop [(''x'', VNum 405)] key)) \<and>
        (\<not> fst (updateEntity (VNum 1) [(''x'', VNum 405)] store_at_tick3) \<longrightarrow>
           snd (updateEntity (VNum 1) [(''x'', VNum 405)] store_at_tick3) = store_at_tick3) \<and>
        snd (updateEntity (VNum 1) [(''x'', VNum 405)] store_at_tick3) =
          store_at_tick3\<lparr>entities := AList.update (VNum 1) entity' (entities store_at_tick3)\<rparr> \<and>
        (\<forall>key. key \<noteq> ''lastUpdate'' \<longrightarrow>
           get_prop entity' key =
             (if key \<in> set (map fst [(''x'', VNum 405)]) \<and>
                 strict_neq (get_prop (stored_player 400 0) key) (get_prop [(''x'', VNum 405)] key)
              then get_prop [(''x'', VNum 405)] key else get_prop (stored_player 400 0) key)) \<and>
        (if fst (updateEntity (VNum 1) [(''x'', VNum 405)] store_at_tick3)
         then get_prop entity' ''lastUpdate'' = VNum (of_int (tick store_at_tick3))
         else entity' = stored_player 400 0))"
proof -
  have h: "map_of (entities store_at_tick3) (VNum 1) = Some (stored_player 400 0)"
    by (simp add: store_at_tick3_value)
  note t = updateEntity_spec [of store_at_tick3 "VNum 1" "[(''x'', VNum 405)]",
      THEN conjunct2, rule_format, OF h]
  from h t show ?thesis by (rule conjI)
qed

subsection \<open>createDelta and applyDelta\<close>

lemma get_prop_absent: "k \<notin> set (map fst ob) \<Longrightarrow> get_prop ob k = VUndefined"
proof -
  assume "k \<notin> set (map fst ob)"
  then have "map_of ob k = None" by (simp add: map_of_eq_None_iff)
  then show ?thesis by (simp add: get_prop_def)
qed

lemma entity_eq_but_lastUpdate_iff:
  "entity_eq_but_lastUpdate a b = (\<forall>k. k \<noteq> ''lastUpdate'' \<longrightarrow> get_prop a k = get_prop b k)"
proof
  assume l: "entity_eq_but_lastUpdate a b"
  show "\<forall>k. k \<noteq> ''lastUpdate'' \<longrightarrow> get_prop a k = get_prop b k"
  proof (intro allI impI)
    fix k :: string
    assume ne: "k \<noteq> ''lastUpdate''"
    show "get_prop a k = get_prop b k"
    proof (cases "k \<in> set (map fst a) \<union> set (map fst b)")
      case True
      with l ne show ?thesis unfolding entity_eq_but_lastUpdate_def by blast
    next
      case False
      then show ?thesis by (simp add: get_prop_absent)
    qed
  qed
next
  assume "\<forall>k. k \<noteq> ''lastUpdate'' \<longrightarrow> get_prop a k = get_prop b k"
  then show "entity_eq_but_lastUpdate a b"
    unfolding entity_eq_but_lastUpdate_def by blast
qed

lemma table_eq_iff:
  "table_eq R t1 t2 =
     (\<forall>eid. (case (map_of t1 eid, map_of t2 eid) of
                (Some a, Some b) \<Rightarrow> R a b | (None, None) \<Rightarrow> True | _ \<Rightarrow> False))"
proof
  assume l: "table_eq R t1 t2"
  show "\<forall>eid. (case (map_of t1 eid, map_of t2 eid) of
                (Some a, Some b) \<Rightarrow> R a b | (None, None) \<Rightarrow> True | _ \<Rightarrow> False)"
  proof
    fix eid
    show "(case (map_of t1 eid, map_of t2 eid) of
                (Some a, Some b) \<Rightarrow> R a b | (None, None) \<Rightarrow> True | _ \<Rightarrow> False)"
    proof (cases "eid \<in> set (map fst t1) \<union> set (map fst t2)")
      case True
      with l have "(case (map_of t1 eid, map_of t2 eid) of (Some a, Some b) \<Rightarrow> R a b | _ \<Rightarrow> False)"
        unfolding table_eq_def by blast
      then show ?thesis by (auto split: option.splits)
    next
      case False
      then have "map_of t1 eid = None" "map_of t2 eid = None"
        by (simp_all add: map_of_eq_None_iff)
      then show ?thesis by simp
    qed
  qed
next
  assume r: "\<forall>eid. (case (map_of t1 eid, map_of t2 eid) of
                (Some a, Some b) \<Rightarrow> R a b | (None, None) \<Rightarrow> True | _ \<Rightarrow> False)"
  show "table_eq R t1 t2"
    unfolding table_eq_def
  proof
    fix eid
    assume "eid \<in> set (map fst t1) \<union> set (map fst t2)"
    then have "map_of t1 eid \<noteq> None \<or> map_of t2 eid \<noteq> None"
      by (auto simp add: map_of_eq_None_iff)
    with r [rule_format, of eid]
    show "(case (map_of t1 eid, map_of t2 eid) of (Some a, Some b) \<Rightarrow> R a b | _ \<Rightarrow> False)"
      by (auto split: option.splits)
  qed
qed

lemma keys_set_prop: "fst ` set (set_prop ob k v) = insert k (fst ` set ob)"
  using dom_update [of k v ob] by (simp add: set_prop_def)

lemma changed_fields_get:
  "get_prop (fst (changed_fields entity oldEntity keys updates h)) k =
     (if k \<in> set keys \<and> k \<noteq> ''lastUpdate'' \<and> strict_neq (get_prop entity k) (get_prop oldEntity k)
      then get_prop entity k else get_prop updates k)"
  by (induction keys arbitrary: updates h) (auto simp add: get_prop_set_prop)

lemma changed_fields_keys:
  "fst ` set (fst (changed_fields entity oldEntity keys updates h)) =
     fst ` set updates \<union>
     {k \<in> set keys. k \<noteq> ''lastUpdate'' \<and> strict_neq (get_prop entity k) (get_prop oldEntity k)}"
  by (induction keys arbitrary: updates h) (auto simp add: keys_set_prop)

lemma changed_fields_True: "snd (changed_fields entity oldEntity keys updates True)"
  by (induction keys arbitrary: updates) auto

lemma changed_fields_flag:
  "snd (changed_fields entity oldEntity keys updates h) =
     (h \<or> (\<exists>k\<in>set keys. k \<noteq> ''lastUpdate'' \<and> strict_neq (get_prop entity k) (get_prop oldEntity k)))"
  by (induction keys arbitrary: updates h) (auto simp add: changed_fields_True)

lemma assign_fields_get:
  "get_prop (assign_fields entity updates keys) k =
     (if k \<in> set keys \<and> k \<noteq> ''id'' then get_prop updates k else get_prop entity k)"
  by (induction keys arbitrary: entity) (auto simp add: get_prop_set_prop)

text \<open>The lists that \<open>createDelta\<close> builds, in closed form.\<close>

lemma diff_entity_apply:
  "diff_entity fromState (eid, entity) d =
     (case old_entity fromState eid of
        None \<Rightarrow> d\<lparr>created := created d @ [entity]\<rparr>
      | Some oldEntity \<Rightarrow>
          (if snd (changed_fields entity oldEntity (map fst entity) [] False)
           then d\<lparr>updated := updated d @
                  [set_prop (fst (changed_fields entity oldEntity (map fst entity) [] False)) ''id'' eid]\<rparr>
           else d))"
  by (simp add: diff_entity_def old_entity_def Let_def split_beta split: option.splits)

lemma diff_removed_apply:
  "diff_removed toState (eid, entity) d =
     (if map_of (s_entities toState) eid = None then d\<lparr>removed := removed d @ [eid]\<rparr> else d)"
  by (simp add: diff_removed_def)

lemma fold_diff_entity:
  "fold (diff_entity fromState) t d =
     d\<lparr>created := created d @ map snd (filter (\<lambda>p. old_entity fromState (fst p) = None) t),
       updated := updated d @ List.map_filter (entity_updates fromState) t\<rparr>"
proof (induction t arbitrary: d)
  case Nil
  show ?case by (simp add: List.map_filter_simps)
next
  case (Cons p t)
  obtain eid entity where p: "p = (eid, entity)" by (cases p)
  show ?case
    by (simp add: Cons.IH p diff_entity_apply entity_updates_def
        List.map_filter_simps split: option.splits)
qed

lemma fold_diff_removed:
  "fold (diff_removed toState) t d =
     d\<lparr>removed := removed d @ map fst (filter (\<lambda>p. map_of (s_entities toState) (fst p) = None) t)\<rparr>"
proof (induction t arbitrary: d)
  case Nil
  show ?case by simp
next
  case (Cons p t)
  obtain eid entity where p: "p = (eid, entity)" by (cases p)
  show ?case by (simp add: Cons.IH p diff_removed_apply)
qed

lemma createDelta_Some:
  "createDelta (Some S1) S2 =
     \<lparr>d_tick = s_tick S2, d_timestamp = s_timestamp S2,
      created = map snd (filter (\<lambda>p. map_of (s_entities S1) (fst p) = None) (s_entities S2)),
      updated = List.map_filter (entity_updates (Some S1)) (s_entities S2),
      removed = map fst (filter (\<lambda>p. map_of (s_entities S2) (fst p) = None) (s_entities S1))\<rparr>"
  by (simp add: createDelta_def fold_diff_entity fold_diff_removed old_entity_def Let_def)

text \<open>What the three loops of \<open>applyDelta\<close> do to the entry of an id.\<close>

lemma fold_apply_created:
  assumes "distinct (map fst t2)"
    and "\<forall>(eid, entity)\<in>set t2. get_prop entity ''id'' = eid"
  shows "map_of (fold apply_created (map snd (filter (\<lambda>p. Q (fst p)) t2)) t) k =
           (if Q k \<and> k \<in> fst ` set t2 then map_of t2 k else map_of t k)"
  using assms
proof (induction t2 arbitrary: t k)
  case Nil
  show ?case by simp
next
  case (Cons p t2)
  obtain eid entity where p: "p = (eid, entity)" by (cases p)
  from Cons.prems p have fresh: "eid \<notin> fst ` set t2" and idf: "get_prop entity ''id'' = eid"
    by auto
  from Cons.prems have ih: "map_of (fold apply_created (map snd (filter (\<lambda>p. Q (fst p)) t2)) t') k' =
           (if Q k' \<and> k' \<in> fst ` set t2 then map_of t2 k' else map_of t' k')" for t' k'
    using Cons.IH [of t' k'] by simp
  have head: "apply_created entity t = AList.update eid entity t"
    using idf by (simp add: apply_created_def)
  show ?case
  proof (cases "Q eid")
    case True
    then show ?thesis
      using fresh by (auto simp add: p ih head update_conv')
  next
    case False
    then show ?thesis
      using fresh by (auto simp add: p ih)
  qed
qed

lemma map_of_apply_updated:
  "map_of (apply_updated u t) k =
     (if k = get_prop u ''id''
      then map_option (\<lambda>ent. assign_fields ent u (map fst u)) (map_of t k)
      else map_of t k)"
  by (simp add: apply_updated_def update_conv' split: option.splits)

lemma fold_apply_updated:
  assumes "distinct (map fst t2)"
    and "\<And>p u. G p = Some u \<Longrightarrow> get_prop u ''id'' = fst p"
  shows "map_of (fold apply_updated (List.map_filter G t2) t) k =
     (case map_of t2 k of
        None \<Rightarrow> map_of t k
      | Some e \<Rightarrow>
          (case G (k, e) of
             None \<Rightarrow> map_of t k
           | Some u \<Rightarrow> map_option (\<lambda>ent. assign_fields ent u (map fst u)) (map_of t k)))"
  using assms(1)
proof (induction t2 arbitrary: t k)
  case Nil
  show ?case by (simp add: List.map_filter_simps)
next
  case (Cons p t2)
  obtain eid entity where p: "p = (eid, entity)" by (cases p)
  from Cons.prems p have fresh: "map_of t2 eid = None"
    by (simp add: map_of_eq_None_iff)
  from Cons.prems have ih: "map_of (fold apply_updated (List.map_filter G t2) t') k' =
     (case map_of t2 k' of
        None \<Rightarrow> map_of t' k'
      | Some e \<Rightarrow>
          (case G (k', e) of
             None \<Rightarrow> map_of t' k'
           | Some u \<Rightarrow> map_option (\<lambda>ent. assign_fields ent u (map fst u)) (map_of t' k')))" for t' k'
    using Cons.IH [of t' k'] by simp
  show ?case
  proof (cases "G (eid, entity)")
    case None
    then show ?thesis
      using fresh by (auto simp add: p ih List.map_filter_simps split: option.splits)
  next
    case (Some u)
    with assms(2) [of "(eid, entity)" u] have idu: "get_prop u ''id'' = eid" by simp
    show ?thesis
    proof (cases "k = eid")
      case True
      then show ?thesis
        using fresh Some idu by (simp add: p ih List.map_filter_simps map_of_apply_updated)
    next
      case False
      then show ?thesis
        using Some idu
        by (simp add: p ih List.map_filter_simps map_of_apply_updated split: option.splits)
    qed
  qed
qed

lemma fold_delete:
  "map_of (fold AList.delete ids t) k = (if k \<in> set ids then None else map_of t k)"
  by (induction ids arbitrary: t) (auto simp add: delete_conv')

lemma entity_updates_id:
  "entity_updates fromState p = Some u \<Longrightarrow> get_prop u ''id'' = fst p"
  by (cases p) (auto simp add: entity_updates_def get_prop_set_prop split: option.splits if_splits)

text \<open>An entity after the delta, field by field.\<close>

lemma unchanged_entity:
  assumes "\<not> snd (changed_fields e2 e1 (map fst e2) [] False)"
    and "set (map fst e1) \<subseteq> set (map fst e2)"
  shows "entity_eq_but_lastUpdate e1 e2"
  unfolding entity_eq_but_lastUpdate_iff
proof (intro allI impI)
  fix k :: string
  assume ne: "k \<noteq> ''lastUpdate''"
  show "get_prop e1 k = get_prop e2 k"
  proof (cases "k \<in> set (map fst e2)")
    case True
    with assms(1) ne have "\<not> strict_neq (get_prop e2 k) (get_prop e1 k)"
      by (auto simp add: changed_fields_flag)
    then show ?thesis by (simp add: strict_neq_def)
  next
    case False
    with assms(2) have "k \<notin> set (map fst e1)" by blast
    with False show ?thesis by (simp add: get_prop_absent)
  qed
qed

lemma updated_entity:
  assumes "get_prop e1 ''id'' = get_prop e2 ''id''"
    and "set (map fst e1) \<subseteq> set (map fst e2)"
    and "u = set_prop (fst (changed_fields e2 e1 (map fst e2) [] False)) ''id'' eid"
  shows "entity_eq_but_lastUpdate (assign_fields e1 u (map fst u)) e2"
  unfolding entity_eq_but_lastUpdate_iff
proof (intro allI impI)
  fix k :: string
  assume ne: "k \<noteq> ''lastUpdate''"
  let ?c = "fst (changed_fields e2 e1 (map fst e2) [] False)"
  have keys_u: "set (map fst u) = insert ''id'' (fst ` set ?c)"
    using keys_set_prop [of ?c "''id''" eid] by (simp add: assms(3))
  have keys_c: "fst ` set ?c =
      {k \<in> set (map fst e2). k \<noteq> ''lastUpdate'' \<and> strict_neq (get_prop e2 k) (get_prop e1 k)}"
    using changed_fields_keys [of e2 e1 "map fst e2" "[]" False] by simp
  have get_c: "get_prop ?c k =
      (if k \<in> set (map fst e2) \<and> k \<noteq> ''lastUpdate'' \<and> strict_neq (get_prop e2 k) (get_prop e1 k)
       then get_prop e2 k else VUndefined)"
    using changed_fields_get [of e2 e1 "map fst e2" "[]" False k] by (simp add: get_prop_def)
  show "get_prop (assign_fields e1 u (map fst u)) k = get_prop e2 k"
  proof (cases "k = ''id''")
    case True
    then show ?thesis using assms(1) by (simp add: assign_fields_get)
  next
    case notid: False
    show ?thesis
    proof (cases "k \<in> set (map fst e2)")
      case inkeys: True
      show ?thesis
      proof (cases "strict_neq (get_prop e2 k) (get_prop e1 k)")
        case True
        with inkeys ne notid have "k \<in> set (map fst u)"
          unfolding keys_u keys_c by simp
        moreover have "get_prop u k = get_prop e2 k"
          using True inkeys ne notid get_c by (simp add: assms(3) get_prop_set_prop)
        ultimately show ?thesis using notid by (simp add: assign_fields_get)
      next
        case False
        then have eq: "get_prop e1 k = get_prop e2 k" by (simp add: strict_neq_def)
        from False notid have "k \<notin> set (map fst u)"
          unfolding keys_u keys_c by simp
        then show ?thesis using eq by (simp add: assign_fields_get)
      qed
    next
      case False
      with assms(2) have "k \<notin> set (map fst e1)" by blast
      with False have eq: "get_prop e1 k = get_prop e2 k" by (simp add: get_prop_absent)
      from False notid have "k \<notin> set (map fst u)"
        unfolding keys_u keys_c by simp
      then show ?thesis using eq by (simp add: assign_fields_get)
    qed
  qed
qed

lemma entity_eq_but_lastUpdate_refl: "entity_eq_but_lastUpdate e e"
  by (simp add: entity_eq_but_lastUpdate_def)

lemma wf_table_id: "wf_table t \<Longrightarrow> map_of t eid = Some e \<Longrightarrow> get_prop e ''id'' = eid"
  by (auto simp add: wf_table_def dest: map_of_SomeD)

lemma keys_keptD:
  "keys_kept t1 t2 \<Longrightarrow> map_of t1 eid = Some e1 \<Longrightarrow> map_of t2 eid = Some e2 \<Longrightarrow>
     set (map fst e1) \<subseteq> set (map fst e2)"
  unfolding keys_kept_def by (drule map_of_SomeD) force

lemma snapshot_before_value:
  "snapshot_before = \<lparr>s_tick = 0, s_timestamp = 1000, s_entities = [(VNum 1, stored_player 400 0)]\<rparr>"
  by (simp add: snapshot_before_def createSnapshot_def addEntity_def generateEntityId_def
      newGameState_def example_player_def stored_player_def get_prop_def js_or_def Let_def)

lemma snapshot_after_value:
  "snapshot_after = \<lparr>s_tick = 3, s_timestamp = 1050, s_entities = [(VNum 1, stored_player 405 3)]\<rparr>"
  by (simp add: snapshot_after_def createSnapshot_def addEntity_def generateEntityId_def
      newGameState_def example_player_def stored_player_def get_prop_def js_or_def Let_def
      applyDelta_def updateEntity_def set_prop_def strict_neq_def)

lemma delta_before_after:
  "createDelta (Some snapshot_before) snapshot_after =
     \<lparr>d_tick = 3, d_timestamp = 1050, created = [],
      updated = [[(''x'', VNum 405), (''id'', VNum 1)]], removed = []\<rparr>"
  by (simp add: snapshot_before_value snapshot_after_value createDelta_def diff_entity_def
      diff_removed_def stored_player_def get_prop_def set_prop_def strict_neq_def Let_def)

text \<open>
  C1, as stated: applying \<open>createDelta(S1, S2)\<close> to a copy of S1's table gives a table
  equal to S2's field for field. \<open>createDelta\<close> leaves \<open>lastUpdate\<close> out of every
  \<open>updates\<close> object, so the updated player keeps \<open>lastUpdate = 0\<close> where S2 has 3.
\<close>

theorem createDelta_applyDelta_counterexample:
  "entities (applyDelta (createDelta (Some snapshot_before) snapshot_after)
              (newGameState\<lparr>entities := s_entities snapshot_before\<rparr>))
     = [(VNum 1, stored_player 405 0)]
   \<and> s_entities snapshot_after = [(VNum 1, stored_player 405 3)]
   \<and> \<not> table_eq entity_eq
         (entities (applyDelta (createDelta (Some snapshot_before) snapshot_after)
                     (newGameState\<lparr>entities := s_entities snapshot_before\<rparr>)))
         (s_entities snapshot_after)"
proof -
  have r: "entities (applyDelta (createDelta (Some snapshot_before) snapshot_after)
              (newGameState\<lparr>entities := s_entities snapshot_before\<rparr>))
     = [(VNum 1, stored_player 405 0)]"
    unfolding delta_before_after
    by (simp add: applyDelta_def apply_updated_def snapshot_before_value
        stored_player_def get_prop_def set_prop_def)
  have a: "s_entities snapshot_after = [(VNum 1, stored_player 405 3)]"
    by (simp add: snapshot_after_value)
  have "get_prop (stored_player 405 0) ''lastUpdate'' \<noteq> get_prop (stored_player 405 3) ''lastUpdate''"
    by (simp add: stored_player_def get_prop_def)
  moreover have "''lastUpdate'' \<in> set (map fst (stored_player 405 0))"
    by (simp add: stored_player_def)
  ultimately have "\<not> entity_eq (stored_player 405 0) (stored_player 405 3)"
    unfolding entity_eq_def by blast
  then have "\<not> table_eq entity_eq [(VNum 1, stored_player 405 0)] [(VNum 1, stored_player 405 3)]"
    by (simp add: table_eq_def)
  with r a show ?thesis by simp
qed

text \<open>
  C1, amended: let S1 and S2 be snapshots whose tables have one entry per id with the
  \<open>id\<close> field equal to the key, and such that an entity present in both has in S2 every
  property it has in S1. Then \<open>applyDelta(createDelta(S1, S2))\<close> on a copy of S1's table
  gives a table with the ids of S2's and, under each id, an entity equal to S2's in every
  field other than \<open>lastUpdate\<close>; the store's tick becomes that of S2.
\<close>

theorem createDelta_applyDelta_roundtrip:
  assumes wf1: "wf_table (s_entities S1)"
    and wf2: "wf_table (s_entities S2)"
    and kept: "keys_kept (s_entities S1) (s_entities S2)"
    and copy: "entities gs = s_entities S1"
  shows "table_eq entity_eq_but_lastUpdate
           (entities (applyDelta (createDelta (Some S1) S2) gs)) (s_entities S2)
         \<and> tick (applyDelta (createDelta (Some S1) S2) gs) = s_tick S2"
proof
  show "tick (applyDelta (createDelta (Some S1) S2) gs) = s_tick S2"
    by (simp add: applyDelta_def createDelta_Some Let_def)
next
  let ?T1 = "s_entities S1" and ?T2 = "s_entities S2"
  let ?G = "entity_updates (Some S1)"
  let ?created = "map snd (filter (\<lambda>p. map_of ?T1 (fst p) = None) ?T2)"
  let ?removed = "map fst (filter (\<lambda>p. map_of ?T2 (fst p) = None) ?T1)"
  let ?t1 = "fold apply_created ?created ?T1"
  let ?t2 = "fold apply_updated (List.map_filter ?G ?T2) ?t1"
  let ?res = "entities (applyDelta (createDelta (Some S1) S2) gs)"
  have res: "?res = fold AList.delete ?removed ?t2"
    by (simp add: applyDelta_def createDelta_Some Let_def copy)
  from wf2 have d2: "distinct (map fst ?T2)"
    and id2: "\<forall>(eid, entity)\<in>set ?T2. get_prop entity ''id'' = eid"
    by (simp_all add: wf_table_def)
  have m1: "map_of ?t1 k =
      (if map_of ?T1 k = None \<and> k \<in> fst ` set ?T2 then map_of ?T2 k else map_of ?T1 k)" for k
    using fold_apply_created [OF d2 id2, of "\<lambda>k. map_of ?T1 k = None" ?T1 k] by simp
  have m2: "map_of ?t2 k =
     (case map_of ?T2 k of
        None \<Rightarrow> map_of ?t1 k
      | Some e \<Rightarrow>
          (case ?G (k, e) of
             None \<Rightarrow> map_of ?t1 k
           | Some u \<Rightarrow> map_option (\<lambda>ent. assign_fields ent u (map fst u)) (map_of ?t1 k)))" for k
    using fold_apply_updated [OF d2, of ?G ?t1 k] entity_updates_id by blast
  have m3: "map_of ?res k = (if k \<in> set ?removed then None else map_of ?t2 k)" for k
    by (simp only: res fold_delete)
  have rem: "k \<in> set ?removed \<longleftrightarrow> map_of ?T1 k \<noteq> None \<and> map_of ?T2 k = None" for k
    by (auto simp add: map_of_eq_None_iff [symmetric] image_iff dest: map_of_SomeD weak_map_of_SomeI)
  show "table_eq entity_eq_but_lastUpdate ?res ?T2"
    unfolding table_eq_iff
  proof
    fix eid
    show "case (map_of ?res eid, map_of ?T2 eid) of
            (Some a, Some b) \<Rightarrow> entity_eq_but_lastUpdate a b
          | (None, None) \<Rightarrow> True
          | _ \<Rightarrow> False"
    proof (cases "map_of ?T2 eid")
      case None
      then have "eid \<notin> fst ` set ?T2" by (simp add: map_of_eq_None_iff)
      have "map_of ?res eid = None"
      proof (cases "map_of ?T1 eid")
        case absent: None
        with None have "map_of ?t2 eid = None" by (simp add: m2 m1)
        then show ?thesis by (simp only: m3 if_cancel)
      next
        case (Some e1)
        with None rem [of eid] have "eid \<in> set ?removed" by blast
        then show ?thesis by (simp only: m3 if_True)
      qed
      with None show ?thesis by simp
    next
      case (Some e2)
      then have in2: "eid \<in> fst ` set ?T2"
        by (metis map_of_eq_None_iff option.distinct(1))
      from Some rem [of eid] have notrem: "eid \<notin> set ?removed" by auto
      show ?thesis
      proof (cases "map_of ?T1 eid")
        case None
        then have "?G (eid, e2) = None"
          by (simp add: entity_updates_def old_entity_def)
        with None Some in2 notrem have "map_of ?res eid = Some e2"
          by (simp add: m3 m2 m1)
        with Some show ?thesis by (simp add: entity_eq_but_lastUpdate_refl)
      next
        case old: (Some e1)
        have ids: "get_prop e1 ''id'' = get_prop e2 ''id''"
          using wf_table_id [OF wf1 old] wf_table_id [OF wf2 Some] by simp
        have keys: "set (map fst e1) \<subseteq> set (map fst e2)"
          using keys_keptD [OF kept old Some] .
        show ?thesis
        proof (cases "snd (changed_fields e2 e1 (map fst e2) [] False)")
          case True
          define u where "u = set_prop (fst (changed_fields e2 e1 (map fst e2) [] False)) ''id'' eid"
          from True old have "?G (eid, e2) = Some u"
            by (simp add: entity_updates_def old_entity_def u_def)
          with old Some notrem have "map_of ?res eid = Some (assign_fields e1 u (map fst u))"
            by (simp add: m3 m2 m1)
          with Some updated_entity [OF ids keys u_def] show ?thesis by simp
        next
          case False
          with old have "?G (eid, e2) = None"
            by (simp add: entity_updates_def old_entity_def)
          with old Some notrem have "map_of ?res eid = Some e1"
            by (simp add: m3 m2 m1)
          with Some unchanged_entity [OF False keys] show ?thesis by simp
        qed
      qed
    qed
  qed
qed

lemma snapshot_two_value:
  "snapshot_two = \<lparr>s_tick = 0, s_timestamp = 1000, s_entities =
     [(VNum 1, stored_player 400 0),
      (VNum 2, [(''id'', VNum 2), (''type'', VStr ''enemy''), (''x'', VNum 800), (''y'', VNum 600),
        (''width'', VNum 40), (''height'', VNum 40), (''angle'', VNum 0), (''health'', VNum 60),
        (''maxHealth'', VNum 60), (''owner'', VNull), (''lastUpdate'', VNum 0)])]\<rparr>"
  by (simp add: snapshot_two_def two_entities_def createSnapshot_def addEntity_def
      generateEntityId_def newGameState_def example_player_def example_enemy_def
      stored_player_def get_prop_def js_or_def Let_def)

lemma snapshot_moved_value:
  "snapshot_moved = \<lparr>s_tick = 3, s_timestamp = 1050, s_entities =
     [(VNum 1, [(''id'', VNum 1), (''type'', VStr ''player''), (''x'', VNum 405), (''y'', VNum 300),
        (''width'', VNum 30), (''height'', VNum 30), (''angle'', VNum 0), (''health'', VNum 90),
        (''maxHealth'', VNum 100), (''owner'', VNull), (''lastUpdate'', VNum 3)]),
      (VNum 3, [(''id'', VNum 3), (''type'', VStr ''bullet''), (''x'', VNum 420), (''y'', VNum 300),
        (''width'', VNum 4), (''height'', VNum 4), (''angle'', VNum 0), (''health'', VUndefined),
        (''maxHealth'', VUndefined), (''owner'', VNum 1), (''lastUpdate'', VNum 3)])]\<rparr>"
  by (simp add: snapshot_moved_def two_entities_def createSnapshot_def addEntity_def
      generateEntityId_def newGameState_def example_player_def example_enemy_def example_bullet_def
      removeEntity_def applyDelta_def updateEntity_def set_prop_def strict_neq_def
      get_prop_def js_or_def Let_def)

theorem createDelta_applyDelta_roundtrip_witness:
  "wf_table (s_entities snapshot_two) \<and> wf_table (s_entities snapshot_moved) \<and>
   keys_kept (s_entities snapshot_two) (s_entities snapshot_moved) \<and>
   entities (newGameState\<lparr>entities := s_entities snapshot_two\<rparr>) = s_entities snapshot_two \<and>
   table_eq entity_eq_but_lastUpdate
     (entities (applyDelta (createDelta (Some snapshot_two) snapshot_moved)
                 (newGameState\<lparr>entities := s_entities snapshot_two\<rparr>)))
     (s_entities snapshot_moved) \<and>
   tick (applyDelta (createDelta (Some snapshot_two) snapshot_moved)
          (newGameState\<lparr>entities := s_entities snapshot_two\<rparr>)) = s_tick snapshot_moved"
proof -
  have h1: "wf_table (s_entities snapshot_two)"
    by (simp add: snapshot_two_value wf_table_def stored_player_def get_prop_def)
  have h2: "wf_table (s_entities snapshot_moved)"
    by (simp add: snapshot_moved_value wf_table_def get_prop_def)
  have h3: "keys_kept (s_entities snapshot_two) (s_entities snapshot_moved)"
    by (simp add: snapshot_two_value snapshot_moved_value keys_kept_def stored_player_def)
  have h4: "entities (newGameState\<lparr>entities := s_entities snapshot_two\<rparr>) = s_entities snapshot_two"
    by simp
  note t = createDelta_applyDelta_roundtrip [OF h1 h2 h3 h4]
  from h1 h2 h3 h4 t show ?thesis by simp
qed

section \<open>Properties of the binary codec\<close>

text \<open>The bit loops at a numeral width, one round at a time.\<close>

lemma writeBits_loop_numeral:
  "writeBits_loop v (numeral k) s =
     (if bit v (pred_numeral k mod 32)
      then and_then (getUint8 s (bitPosition s div 8)) (\<lambda>old.
           and_then (setUint8 s (bitPosition s div 8) (old OR push_bit (7 - bitPosition s mod 8) 1)) (\<lambda>s'.
           writeBits_loop v (pred_numeral k) (s'\<lparr>bitPosition := bitPosition s' + 1\<rparr>)))
      else writeBits_loop v (pred_numeral k) (s\<lparr>bitPosition := bitPosition s + 1\<rparr>))"
  unfolding numeral_eq_Suc [of k] by (simp add: Let_def)

lemma readBits_loop_numeral:
  "readBits_loop v (numeral k) s =
     and_then (getUint8 s (bitPosition s div 8)) (\<lambda>b.
       readBits_loop (v OR push_bit (pred_numeral k mod 32) (if bit b (7 - bitPosition s mod 8) then 1 else 0))
         (pred_numeral k) (s\<lparr>bitPosition := bitPosition s + 1\<rparr>))"
  unfolding numeral_eq_Suc [of k] by (simp add: Let_def)

lemma max_quantum_table: "max_quantum 8 = 255" "max_quantum 16 = 65535"
  by (simp_all add: max_quantum_def)

lemma fresh_buffer_bytes:
  "fresh_buffer = \<lparr>buffer = [0, 0, 0, 0, 0, 0, 0, 0, 0, 0, 0, 0, 0, 0, 0, 0,
                              0, 0, 0, 0, 0, 0, 0, 0, 0, 0, 0, 0, 0, 0, 0, 0], bitPosition = 0\<rparr>"
  unfolding fresh_buffer_def by (simp add: numeral_eq_Suc)

lemma example_mask: "property_mask props 0 example_entity 0 = 1023"
  by (simp add: props_def example_entity_def)

lemma serialize_example:
  "serializeEntity example_entity True fresh_buffer =
     Inr \<lparr>buffer = encoded_bytes, bitPosition = 123\<rparr>"
  by (simp add: serializeEntity_def example_mask,
      simp add: props_def example_entity_def fresh_buffer_bytes encoded_bytes_def
        writeUint16_def writeUint8_def writeBits_def writeBits_loop_numeral and_then_def
        getUint8_def setUint8_def writeFixed_def writeAngle_def writeEnum_def
        math_round_def js_rem_def max_quantum_table)

lemma deserialize_example:
  "deserializeEntity True \<lparr>buffer = encoded_bytes, bitPosition = 0\<rparr> =
     Inr (\<lparr>e_id = Some 1, e_type = Some ''player'', e_x = Some (5243 / 65535 * 5000),
            e_y = Some (3932 / 65535 * 5000), e_angle = Some (3 / 255 * pi * 2),
            e_health = Some 100, e_maxHealth = Some 100, e_width = Some 30,
            e_height = Some 30, e_owner = Some 0\<rparr>,
          \<lparr>buffer = encoded_bytes, bitPosition = 123\<rparr>)"
  by (simp add: deserializeEntity_def props_def empty_entity_def encoded_bytes_def
      readUint16_def readUint8_def readBits_def readBits_loop_numeral and_then_def
      getUint8_def readFixed_def readAngle_def readEnum_def max_quantum_table)

lemma before_health_value:
  "before_health = Inr \<lparr>buffer = bytes_before_health, bitPosition = 75\<rparr>"
  by (simp add: before_health_def example_mask,
      simp add: example_entity_def fresh_buffer_bytes bytes_before_health_def
        writeUint16_def writeBits_def writeBits_loop_numeral and_then_def
        getUint8_def setUint8_def writeFixed_def writeAngle_def writeEnum_def
        math_round_def js_rem_def max_quantum_table)

text \<open>
  C2, at the entity \<open>example_entity\<close> (all fields in range, angle 0, health 100): the
  claim bounds the error of the decoded angle by \<open>2 * pi / (2 ^ 8 - 1)\<close>. The code decodes
  the angle \<open>3 / 255 * pi * 2\<close>, three quantization steps away: \<open>writeUint8\<close> stores
  \<open>health\<close> over the whole byte 9, whose top three bits held the low bits of the angle.
  The positions are within their bound here and the integer and enum fields are exact.
\<close>

theorem encode_decode_angle_off:
  "encode_decode example_entity =
     Inr \<lparr>e_id = Some 1, e_type = Some ''player'', e_x = Some (5243 / 65535 * 5000),
          e_y = Some (3932 / 65535 * 5000), e_angle = Some (3 / 255 * pi * 2),
          e_health = Some 100, e_maxHealth = Some 100, e_width = Some 30,
          e_height = Some 30, e_owner = Some 0\<rparr>
   \<and> e_angle example_entity = Some 0
   \<and> 2 * pi / (2 ^ 8 - 1) < \<bar>3 / 255 * pi * 2 - 0\<bar>
   \<and> \<bar>5243 / 65535 * 5000 - 400\<bar> \<le> (5000 :: real) / (2 ^ 16 - 1)
   \<and> \<bar>3932 / 65535 * 5000 - 300\<bar> \<le> (5000 :: real) / (2 ^ 16 - 1)"
proof -
  have "encode_decode example_entity =
     Inr \<lparr>e_id = Some 1, e_type = Some ''player'', e_x = Some (5243 / 65535 * 5000),
          e_y = Some (3932 / 65535 * 5000), e_angle = Some (3 / 255 * pi * 2),
          e_health = Some 100, e_maxHealth = Some 100, e_width = Some 30,
          e_height = Some 30, e_owner = Some 0\<rparr>"
    by (simp add: encode_decode_def serialize_example deserialize_example and_then_def)
  moreover have "e_angle example_entity = Some 0"
    by (simp add: example_entity_def)
  moreover have "2 * pi / (2 ^ 8 - 1) < \<bar>3 / 255 * pi * 2 - 0\<bar>"
    using pi_gt_zero by simp
  moreover have "\<bar>5243 / 65535 * 5000 - 400\<bar> \<le> (5000 :: real) / (2 ^ 16 - 1)"
    by simp
  moreover have "\<bar>3932 / 65535 * 5000 - 300\<bar> \<le> (5000 :: real) / (2 ^ 16 - 1)"
    by simp
  ultimately show ?thesis by blast
qed

text \<open>
  C3, at the cursor \<open>before_health\<close> (bit 75, three bits into byte 9) and the value 100:
  the claim makes \<open>writeUint8\<close> and \<open>readUint8\<close> agree with \<open>writeBits\<close> and
  \<open>readBits\<close> at width 8. \<open>writeUint8\<close> puts 100 into byte 9 as a whole, where
  \<open>writeBits\<close> spreads it over bytes 9 and 10; on the buffer that \<open>writeBits\<close> produced,
  \<open>readUint8\<close> returns 12 where \<open>readBits\<close> returns 100.
\<close>

theorem writeUint8_unaligned_differs:
  "before_health = Inr \<lparr>buffer = bytes_before_health, bitPosition = 75\<rparr>
   \<and> writeUint8 100 \<lparr>buffer = bytes_before_health, bitPosition = 75\<rparr> =
       Inr \<lparr>buffer = bytes_before_health[9 := 0x64], bitPosition = 83\<rparr>
   \<and> writeBits 100 8 \<lparr>buffer = bytes_before_health, bitPosition = 75\<rparr> =
       Inr \<lparr>buffer = bytes_before_health[9 := 0x0C, 10 := 0x80], bitPosition = 83\<rparr>
   \<and> bytes_before_health[9 := 0x64] \<noteq> bytes_before_health[9 := 0x0C, 10 := 0x80]
   \<and> readUint8 \<lparr>buffer = bytes_before_health[9 := 0x0C, 10 := 0x80], bitPosition = 75\<rparr> =
       Inr (12, \<lparr>buffer = bytes_before_health[9 := 0x0C, 10 := 0x80], bitPosition = 83\<rparr>)
   \<and> readBits 8 \<lparr>buffer = bytes_before_health[9 := 0x0C, 10 := 0x80], bitPosition = 75\<rparr> =
       Inr (100, \<lparr>buffer = bytes_before_health[9 := 0x0C, 10 := 0x80], bitPosition = 83\<rparr>)"
proof -
  have a: "writeUint8 100 \<lparr>buffer = bytes_before_health, bitPosition = 75\<rparr> =
       Inr \<lparr>buffer = bytes_before_health[9 := 0x64], bitPosition = 83\<rparr>"
    by (simp add: writeUint8_def setUint8_def and_then_def bytes_before_health_def)
  have b: "writeBits 100 8 \<lparr>buffer = bytes_before_health, bitPosition = 75\<rparr> =
       Inr \<lparr>buffer = bytes_before_health[9 := 0x0C, 10 := 0x80], bitPosition = 83\<rparr>"
    by (simp add: writeBits_def writeBits_loop_numeral getUint8_def setUint8_def and_then_def
        bytes_before_health_def)
  have c: "bytes_before_health[9 := 0x64] \<noteq> bytes_before_health[9 := 0x0C, 10 := 0x80]"
    by (simp add: bytes_before_health_def)
  have d: "readUint8 \<lparr>buffer = bytes_before_health[9 := 0x0C, 10 := 0x80], bitPosition = 75\<rparr> =
       Inr (12, \<lparr>buffer = bytes_before_health[9 := 0x0C, 10 := 0x80], bitPosition = 83\<rparr>)"
    by (simp add: readUint8_def getUint8_def and_then_def bytes_before_health_def)
  have e: "readBits 8 \<lparr>buffer = bytes_before_health[9 := 0x0C, 10 := 0x80], bitPosition = 75\<rparr> =
       Inr (100, \<lparr>buffer = bytes_before_health[9 := 0x0C, 10 := 0x80], bitPosition = 83\<rparr>)"
    by (simp add: readBits_def readBits_loop_numeral getUint8_def and_then_def
        bytes_before_health_def)
  from before_health_value a b c d e show ?thesis by blast
qed

section \<open>Properties of the game session\<close>

subsection \<open>Entity ids of the session\<close>

lemma new_session_value:
  "new_session [''a'', ''b''] =
     \<lparr>running = False, gs_tick = 0,
      players = [(''a'', new_player ''a'' (400, 300)), (''b'', new_player ''b'' (1200, 300))],
      enemies = [], bullets = [], wave = 1, enemiesRemaining = 0, gs_nextEnemyId = 1,
      gs_nextBulletId = 1, gs_nextPowerupId = 1,
      playerInputs = [(''a'', new_input), (''b'', new_input)],
      nextEnemyId = None, nextBulletId = None\<rparr>"
  by (simp add: new_session_def getSpawnPoints_def)

lemma post_increment_NaN:
  "to_number v = NaN \<Longrightarrow> post_increment v = (NaN, Some NaN)"
  by (simp add: post_increment_def)

lemma spawn_loop_fields:
  "wave (spawn_loop random n i s) = wave s \<and>
   enemiesRemaining (spawn_loop random n i s) = enemiesRemaining s"
proof (induction random n i s rule: spawn_loop.induct)
  case (1 random n i s)
  show ?case
  proof (cases "i < n")
    case True
    then show ?thesis
      using "1.IH" by (subst (1 2) spawn_loop.simps) (simp add: Let_def split_beta)
  next
    case False
    then show ?thesis by (subst (1 2) spawn_loop.simps) simp
  qed
qed

lemma spawn_loop_ids:
  "to_number (nextEnemyId s) = NaN \<Longrightarrow>
     map fst (enemies (spawn_loop random n i s)) =
       (if i < n \<and> NaN \<notin> set (map fst (enemies s)) then map fst (enemies s) @ [NaN]
        else map fst (enemies s))"
proof (induction random n i s rule: spawn_loop.induct)
  case (1 random n i s)
  show ?case
  proof (cases "i < n")
    case True
    define e where "e = \<lparr>en_id = NaN, en_type = ''zombie'',
        en_x = 800 + cos ((pi * 2 * real i) / real n) * (400 + random i * 200),
        en_y = 600 + sin ((pi * 2 * real i) / real n) * (400 + random i * 200),
        en_angle = 0, en_width = 40, en_height = 40,
        en_health = 50 + int (wave s) * 10, en_maxHealth = 50 + int (wave s) * 10,
        en_speed = 1 + real (wave s) * 0.1, en_damage = 10\<rparr>"
    define s1 where "s1 = s\<lparr>nextEnemyId := Some NaN, enemies := AList.update NaN e (enemies s)\<rparr>"
    have step: "spawn_loop random n i s = spawn_loop random n (i + 1) s1"
      using True "1.prems"
      by (subst spawn_loop.simps) (simp add: post_increment_NaN Let_def s1_def e_def)
    have "to_number (nextEnemyId s1) = NaN"
      by (simp add: s1_def to_number_def)
    with "1.IH" [of "(pi * 2 * real i) / real n" "400 + random i * 200" "(NaN, Some NaN)" NaN "Some NaN" e]
    have ih: "map fst (enemies (spawn_loop random n (i + 1) s1)) =
       (if i + 1 < n \<and> NaN \<notin> set (map fst (enemies s1)) then map fst (enemies s1) @ [NaN]
        else map fst (enemies s1))"
      using True "1.prems" by (simp add: post_increment_NaN s1_def e_def)
    have keys1: "map fst (enemies s1) =
        (if NaN \<in> set (map fst (enemies s)) then map fst (enemies s) else map fst (enemies s) @ [NaN])"
      by (simp add: s1_def update_keys)
    then have "NaN \<in> set (map fst (enemies s1))" by (simp split: if_splits)
    with ih keys1 step True show ?thesis by simp
  next
    case False
    then show ?thesis by (subst spawn_loop.simps) simp
  qed
qed

text \<open>
  C6, at a new session (wave 1, \<open>enemiesRemaining\<close> 0, no enemies): the wave counter
  goes to 2 and \<open>enemiesRemaining\<close> to \<open>5 + 2 * 2 = 9\<close>, as claimed, but the spawned wave
  is one enemy, not nine. \<open>this.nextEnemyId\<close> is \<open>undefined\<close> (the counter lives in
  \<open>this.gameState\<close>), so every id is \<open>NaN\<close> and each \<open>enemies.set\<close> replaces the
  enemy before.
\<close>

theorem checkWaveCompletion_spawns_one:
  "enemiesRemaining (new_session [''a'', ''b'']) = 0
   \<and> wave (new_session [''a'', ''b'']) = 1
   \<and> wave (checkWaveCompletion random (new_session [''a'', ''b''])) = 2
   \<and> enemiesRemaining (checkWaveCompletion random (new_session [''a'', ''b''])) = 9
   \<and> map fst (enemies (checkWaveCompletion random (new_session [''a'', ''b'']))) = [NaN]
   \<and> length (enemies (checkWaveCompletion random (new_session [''a'', ''b'']))) = 1"
proof -
  let ?s = "new_session [''a'', ''b'']"
  let ?s1 = "?s\<lparr>wave := wave ?s + 1, enemiesRemaining := 9\<rparr>"
  have cw: "checkWaveCompletion random ?s = spawn_loop random 9 0 ?s1"
    by (simp add: checkWaveCompletion_def spawnWave_def new_session_value)
  have nan: "to_number (nextEnemyId ?s1) = NaN"
    by (simp add: new_session_value to_number_def)
  have ids: "map fst (enemies (spawn_loop random 9 0 ?s1)) = [NaN]"
    using spawn_loop_ids [OF nan, of random 9 0] by (simp add: new_session_value)
  have len: "length (enemies (spawn_loop random 9 0 ?s1)) = 1"
    using arg_cong [OF ids, of length] by simp
  have "wave (spawn_loop random 9 0 ?s1) = 2" "enemiesRemaining (spawn_loop random 9 0 ?s1) = 9"
    using spawn_loop_fields [of random 9 0 ?s1] by (simp_all add: new_session_value)
  with ids len show ?thesis
    unfolding cw by (simp add: new_session_value)
qed

lemma first_shot_value:
  "first_shot =
     (new_player ''a'' (400, 300)\<lparr>p_lastShot := 1000\<rparr>,
      new_session [''a'', ''b'']
        \<lparr>nextBulletId := Some NaN,
         bullets := [(NaN, \<lparr>b_id = NaN, b_owner = ''a'', b_x = 420, b_y = 300, b_angle = 0,
                           b_speed = 10, b_damage = 25, b_width = 4, b_height = 4,
                           b_maxDistance = 500, b_distanceTraveled = 0\<rparr>)]\<rparr>)"
  by (simp add: first_shot_def playerShoot_def new_session_value new_player_def
      post_increment_def to_number_def)

text \<open>
  C10, at a new session whose player \<open>a\<close> shoots at the times 1000 and 1300: the claim
  makes the ids of the two bullets distinct increasing integers. Both ids are \<open>NaN\<close>
  (\<open>this.nextBulletId\<close> is \<open>undefined\<close> when \<open>playerShoot\<close> increments it), and the
  second bullet takes the place of the first in the \<open>bullets\<close> map.
\<close>

theorem playerShoot_ids_not_unique:
  "map fst (bullets (snd first_shot)) = [NaN]
   \<and> map b_id (map snd (bullets (snd first_shot))) = [NaN]
   \<and> p_lastShot (fst second_shot) = 1300
   \<and> map fst (bullets (snd second_shot)) = [NaN]
   \<and> map b_id (map snd (bullets (snd second_shot))) = [NaN]
   \<and> length (bullets (snd second_shot)) = 1"
  by (simp add: second_shot_def first_shot_value playerShoot_def new_session_value new_player_def
      post_increment_def to_number_def)

subsection \<open>Diagonal movement\<close>

lemma input_dx_cases: "input_dx inp = - 1 \<or> input_dx inp = 0 \<or> input_dx inp = 1"
  by (simp add: input_dx_def Let_def)

lemma input_dy_cases: "input_dy inp = - 1 \<or> input_dy inp = 0 \<or> input_dy inp = 1"
  by (simp add: input_dy_def Let_def)

lemma move_player_unclamped:
  assumes "p_width p / 2 \<le> p_x p + fst (movement inp) * p_speed p * deltaTime * 60"
    and "p_x p + fst (movement inp) * p_speed p * deltaTime * 60 \<le> 1600 - p_width p / 2"
    and "p_height p / 2 \<le> p_y p + snd (movement inp) * p_speed p * deltaTime * 60"
    and "p_y p + snd (movement inp) * p_speed p * deltaTime * 60 \<le> 1200 - p_height p / 2"
  shows "p_x (move_player deltaTime inp p) = p_x p + fst (movement inp) * p_speed p * deltaTime * 60"
    and "p_y (move_player deltaTime inp p) = p_y p + snd (movement inp) * p_speed p * deltaTime * 60"
  using assms by (simp_all add: move_player_def split_beta Let_def max_def min_def)

text \<open>
  C4, as stated: with speed 4 and deltaTime 1/60, moving on both axes gives a displacement
  of about \<open>4 * (1 / 60)\<close>, equal to the single-axis one. The code multiplies the step by
  60 and scales the axes by 0.707: from (400, 300) the player gets to (402.828, 297.172),
  a displacement of more than 3.99 (and less than the single-axis 4), where
  \<open>4 * (1 / 60)\<close> is less than 0.07.
\<close>

theorem diagonal_step_counterexample:
  "p_x (move_player (1 / 60) diagonal_input (new_player ''a'' (400, 300))) = 402.828
   \<and> p_y (move_player (1 / 60) diagonal_input (new_player ''a'' (400, 300))) = 297.172
   \<and> 3.99 < sqrt ((402.828 - 400)\<^sup>2 + (297.172 - 300)\<^sup>2)
   \<and> sqrt ((402.828 - 400)\<^sup>2 + (297.172 - 300)\<^sup>2) < 4
   \<and> p_x (move_player (1 / 60) right_input (new_player ''a'' (400, 300))) = 404
   \<and> p_y (move_player (1 / 60) right_input (new_player ''a'' (400, 300))) = 300
   \<and> 4 * (1 / 60) < (0.07 :: real)"
proof -
  have m: "movement diagonal_input = (0.707, - 0.707)"
    by (simp add: movement_def input_dx_def input_dy_def key_down_def diagonal_input_def
        new_input_def Let_def)
  have r: "movement right_input = (1, 0)"
    by (simp add: movement_def input_dx_def input_dy_def key_down_def right_input_def
        new_input_def Let_def)
  have x: "p_x (move_player (1 / 60) diagonal_input (new_player ''a'' (400, 300))) = 402.828"
    and y: "p_y (move_player (1 / 60) diagonal_input (new_player ''a'' (400, 300))) = 297.172"
    by (simp_all add: move_player_def m new_player_def)
  have rx: "p_x (move_player (1 / 60) right_input (new_player ''a'' (400, 300))) = 404"
    and ry: "p_y (move_player (1 / 60) right_input (new_player ''a'' (400, 300))) = 300"
    by (simp_all add: move_player_def r new_player_def)
  have lo: "3.99 < sqrt ((402.828 - 400)\<^sup>2 + (297.172 - 300)\<^sup>2)"
    by (rule real_less_rsqrt) (simp add: power2_eq_square)
  have hi: "sqrt ((402.828 - 400)\<^sup>2 + (297.172 - 300)\<^sup>2) < 4"
    by (rule real_less_lsqrt) (simp_all add: power2_eq_square)
  from x y rx ry lo hi show ?thesis by simp
qed

text \<open>The length of one movement, where the clamp to the world does not cut it.\<close>

lemma move_player_step_length:
  assumes "p_width p / 2 \<le> p_x p + fst (movement inp) * p_speed p * deltaTime * 60"
    and "p_x p + fst (movement inp) * p_speed p * deltaTime * 60 \<le> 1600 - p_width p / 2"
    and "p_height p / 2 \<le> p_y p + snd (movement inp) * p_speed p * deltaTime * 60"
    and "p_y p + snd (movement inp) * p_speed p * deltaTime * 60 \<le> 1200 - p_height p / 2"
    and "input_dx inp \<noteq> 0"
  shows "sqrt ((p_x (move_player deltaTime inp p) - p_x p)\<^sup>2
             + (p_y (move_player deltaTime inp p) - p_y p)\<^sup>2) =
           (if input_dy inp \<noteq> 0 then 0.707 * sqrt 2 * \<bar>p_speed p * deltaTime * 60\<bar>
            else \<bar>p_speed p * deltaTime * 60\<bar>)"
proof -
  define v where "v = p_speed p * deltaTime * 60"
  have dx: "p_x (move_player deltaTime inp p) - p_x p = fst (movement inp) * v"
    and dy: "p_y (move_player deltaTime inp p) - p_y p = snd (movement inp) * v"
    using move_player_unclamped [OF assms(1-4)] by (simp_all add: v_def algebra_simps)
  have dx2: "(input_dx inp)\<^sup>2 = 1"
    using input_dx_cases [of inp] assms(5) by auto
  have goal: "sqrt ((fst (movement inp) * v)\<^sup>2 + (snd (movement inp) * v)\<^sup>2) =
           (if input_dy inp \<noteq> 0 then 0.707 * sqrt 2 * \<bar>v\<bar> else \<bar>v\<bar>)"
  proof (cases "input_dy inp \<noteq> 0")
    case True
    then have dy2: "(input_dy inp)\<^sup>2 = 1"
      using input_dy_cases [of inp] by auto
    from True assms(5) have mv: "movement inp = (input_dx inp * 0.707, input_dy inp * 0.707)"
      by (simp add: movement_def Let_def)
    have "(fst (movement inp) * v)\<^sup>2 + (snd (movement inp) * v)\<^sup>2
            = ((input_dx inp)\<^sup>2 + (input_dy inp)\<^sup>2) * (0.707 * v)\<^sup>2"
      by (simp add: mv power2_eq_square algebra_simps)
    also have "\<dots> = 2 * (0.707 * v)\<^sup>2" by (simp add: dx2 dy2)
    finally have sq: "(fst (movement inp) * v)\<^sup>2 + (snd (movement inp) * v)\<^sup>2
            = 2 * (0.707 * v)\<^sup>2" .
    have "sqrt (2 * (0.707 * v)\<^sup>2) = sqrt 2 * \<bar>0.707 * v\<bar>"
      by (simp only: real_sqrt_mult real_sqrt_abs)
    also have "\<dots> = 0.707 * sqrt 2 * \<bar>v\<bar>" by (simp add: abs_mult)
    finally have "sqrt (2 * (0.707 * v)\<^sup>2) = 0.707 * sqrt 2 * \<bar>v\<bar>" .
    then have "sqrt ((fst (movement inp) * v)\<^sup>2 + (snd (movement inp) * v)\<^sup>2)
        = 0.707 * sqrt 2 * \<bar>v\<bar>"
      by (simp only: sq)
    with True show ?thesis by simp
  next
    case False
    then have mv: "movement inp = (input_dx inp, 0)"
      by (simp add: movement_def Let_def)
    have "(fst (movement inp) * v)\<^sup>2 + (snd (movement inp) * v)\<^sup>2 = v\<^sup>2"
      by (simp add: mv power_mult_distrib dx2)
    then show ?thesis using False by simp
  qed
  show ?thesis
    unfolding dx dy using goal by (simp only: v_def)
qed

text \<open>The rounds of \<open>updatePlayers\<close>: each changes the entry of its own player only.\<close>

lemma playerShoot_position:
  "p_x (fst (playerShoot now playerId p s)) = p_x p"
  "p_y (fst (playerShoot now playerId p s)) = p_y p"
  by (simp_all add: playerShoot_def Let_def post_increment_def split_beta)

lemma playerShoot_session:
  "players (snd (playerShoot now playerId p s)) = players s"
  "playerInputs (snd (playerShoot now playerId p s)) = playerInputs s"
  by (simp_all add: playerShoot_def Let_def post_increment_def split_beta)

lemma update_player_inputs:
  "playerInputs (update_player deltaTime now k s) = playerInputs s"
  by (simp add: update_player_def Let_def split_beta playerShoot_session split: option.splits)

lemma update_player_other:
  "k \<noteq> playerId \<Longrightarrow>
     map_of (players (update_player deltaTime now k s)) playerId = map_of (players s) playerId"
  by (simp add: update_player_def Let_def split_beta playerShoot_session update_conv'
      split: option.splits)

lemma update_player_self:
  assumes "map_of (players s) playerId = Some p"
    and "map_of (playerInputs s) playerId = Some inp"
    and "p_alive p"
  shows "\<exists>p'. map_of (players (update_player deltaTime now playerId s)) playerId = Some p'
              \<and> p_x p' = p_x (move_player deltaTime inp p)
              \<and> p_y p' = p_y (move_player deltaTime inp p)"
  using assms
  by (simp add: update_player_def Let_def split_beta playerShoot_session playerShoot_position
      update_conv')

lemma fold_update_player_other:
  "playerId \<notin> set ks \<Longrightarrow>
     map_of (players (fold (update_player deltaTime now) ks s)) playerId = map_of (players s) playerId"
  by (induction ks arbitrary: s) (auto simp add: update_player_other)

lemma fold_update_player_inputs:
  "playerInputs (fold (update_player deltaTime now) ks s) = playerInputs s"
  by (induction ks arbitrary: s) (simp_all add: update_player_inputs)

lemma fold_update_player_self:
  assumes "distinct ks" and "playerId \<in> set ks"
    and "map_of (players s) playerId = Some p"
    and "map_of (playerInputs s) playerId = Some inp"
    and "p_alive p"
  shows "\<exists>p'. map_of (players (fold (update_player deltaTime now) ks s)) playerId = Some p'
              \<and> p_x p' = p_x (move_player deltaTime inp p)
              \<and> p_y p' = p_y (move_player deltaTime inp p)"
  using assms
proof (induction ks arbitrary: s)
  case Nil
  then show ?case by simp
next
  case (Cons k ks)
  show ?case
  proof (cases "k = playerId")
    case True
    with Cons.prems have "playerId \<notin> set ks" by simp
    then have "map_of (players (fold (update_player deltaTime now) ks
                  (update_player deltaTime now playerId s))) playerId
        = map_of (players (update_player deltaTime now playerId s)) playerId"
      by (rule fold_update_player_other)
    with update_player_self [OF Cons.prems(3-5), of deltaTime now] True
    show ?thesis by simp
  next
    case False
    with Cons.prems have "playerId \<in> set ks" "distinct ks" by simp_all
    moreover have "map_of (players (update_player deltaTime now k s)) playerId = Some p"
      using False Cons.prems(3) by (simp add: update_player_other)
    moreover have "map_of (playerInputs (update_player deltaTime now k s)) playerId = Some inp"
      using Cons.prems(4) by (simp add: update_player_inputs)
    ultimately show ?thesis
      using Cons.IH [of "update_player deltaTime now k s"] Cons.prems(5) by simp
  qed
qed

text \<open>
  C4, amended: in the server simulation step, a living player with a buffered input
  that holds a horizontal and a vertical direction, and whose step the clamp to the
  world does not cut, is displaced by \<open>0.707 * sqrt 2\<close> times
  \<open>speed * deltaTime * 60\<close>; with a horizontal direction alone it is displaced by
  \<open>speed * deltaTime * 60\<close>. The diagonal step is thus 0.707 times the square root of 2
  (a little less than 1) times the single-axis step, not the square root of 2 times it.
\<close>

theorem updatePlayers_diagonal_step:
  assumes "distinct (map fst (players s))"
    and "map_of (players s) playerId = Some p"
    and "map_of (playerInputs s) playerId = Some inp"
    and "p_alive p"
    and "p_width p / 2 \<le> p_x p + fst (movement inp) * p_speed p * deltaTime * 60"
    and "p_x p + fst (movement inp) * p_speed p * deltaTime * 60 \<le> 1600 - p_width p / 2"
    and "p_height p / 2 \<le> p_y p + snd (movement inp) * p_speed p * deltaTime * 60"
    and "p_y p + snd (movement inp) * p_speed p * deltaTime * 60 \<le> 1200 - p_height p / 2"
    and "input_dx inp \<noteq> 0"
  shows "\<exists>p'. map_of (players (updatePlayers deltaTime now s)) playerId = Some p'
              \<and> sqrt ((p_x p' - p_x p)\<^sup>2 + (p_y p' - p_y p)\<^sup>2) =
                  (if input_dy inp \<noteq> 0 then 0.707 * sqrt 2 * \<bar>p_speed p * deltaTime * 60\<bar>
                   else \<bar>p_speed p * deltaTime * 60\<bar>)"
proof -
  from assms(2) have "playerId \<in> set (map fst (players s))"
    by (metis map_of_eq_None_iff option.distinct(1) set_map)
  from fold_update_player_self [OF assms(1) this assms(2-4), of deltaTime now]
  obtain p' where p': "map_of (players (updatePlayers deltaTime now s)) playerId = Some p'"
    and x: "p_x p' = p_x (move_player deltaTime inp p)"
    and y: "p_y p' = p_y (move_player deltaTime inp p)"
    unfolding updatePlayers_def by blast
  from move_player_step_length [OF assms(5-9)] x y
  have "sqrt ((p_x p' - p_x p)\<^sup>2 + (p_y p' - p_y p)\<^sup>2) =
          (if input_dy inp \<noteq> 0 then 0.707 * sqrt 2 * \<bar>p_speed p * deltaTime * 60\<bar>
           else \<bar>p_speed p * deltaTime * 60\<bar>)"
    by simp
  with p' show ?thesis by blast
qed

theorem updatePlayers_diagonal_step_witness:
  "distinct (map fst (players diagonal_session))
   \<and> map_of (players diagonal_session) ''a'' = Some (new_player ''a'' (400, 300))
   \<and> map_of (playerInputs diagonal_session) ''a'' = Some diagonal_input
   \<and> p_alive (new_player ''a'' (400, 300))
   \<and> input_dx diagonal_input \<noteq> 0 \<and> input_dy diagonal_input \<noteq> 0
   \<and> p_speed (new_player ''a'' (400, 300)) * (1 / 60) * 60 = 4
   \<and> (\<exists>p'. map_of (players (updatePlayers (1 / 60) 1000 diagonal_session)) ''a'' = Some p'
          \<and> sqrt ((p_x p' - p_x (new_player ''a'' (400, 300)))\<^sup>2
                 + (p_y p' - p_y (new_player ''a'' (400, 300)))\<^sup>2) =
              (if input_dy diagonal_input \<noteq> 0
               then 0.707 * sqrt 2 * \<bar>p_speed (new_player ''a'' (400, 300)) * (1 / 60) * 60\<bar>
               else \<bar>p_speed (new_player ''a'' (400, 300)) * (1 / 60) * 60\<bar>))"
proof -
  have m: "movement diagonal_input = (0.707, - 0.707)"
    by (simp add: movement_def input_dx_def input_dy_def key_down_def diagonal_input_def
        new_input_def Let_def)
  have dxy: "input_dx diagonal_input \<noteq> 0" "input_dy diagonal_input \<noteq> 0"
    by (simp_all add: input_dx_def input_dy_def key_down_def diagonal_input_def new_input_def Let_def)
  have h1: "distinct (map fst (players diagonal_session))"
    by (simp add: diagonal_session_def new_session_value)
  have h2: "map_of (players diagonal_session) ''a'' = Some (new_player ''a'' (400, 300))"
    by (simp add: diagonal_session_def new_session_value)
  have h3: "map_of (playerInputs diagonal_session) ''a'' = Some diagonal_input"
    by (simp add: diagonal_session_def)
  have h4: "p_alive (new_player ''a'' (400, 300))"
    by (simp add: new_player_def)
  have b: "p_width (new_player ''a'' (400, 300)) / 2
        \<le> p_x (new_player ''a'' (400, 300))
          + fst (movement diagonal_input) * p_speed (new_player ''a'' (400, 300)) * (1 / 60) * 60"
    "p_x (new_player ''a'' (400, 300))
          + fst (movement diagonal_input) * p_speed (new_player ''a'' (400, 300)) * (1 / 60) * 60
        \<le> 1600 - p_width (new_player ''a'' (400, 300)) / 2"
    "p_height (new_player ''a'' (400, 300)) / 2
        \<le> p_y (new_player ''a'' (400, 300))
          + snd (movement diagonal_input) * p_speed (new_player ''a'' (400, 300)) * (1 / 60) * 60"
    "p_y (new_player ''a'' (400, 300))
          + snd (movement diagonal_input) * p_speed (new_player ''a'' (400, 300)) * (1 / 60) * 60
        \<le> 1200 - p_height (new_player ''a'' (400, 300)) / 2"
    by (simp_all add: m new_player_def)
  have v: "p_speed (new_player ''a'' (400, 300)) * (1 / 60) * 60 = 4"
    by (simp add: new_player_def)
  note t = updatePlayers_diagonal_step [OF h1 h2 h3 h4 b dxy(1), of 1000]
  from h1 h2 h3 h4 dxy v t show ?thesis by (intro conjI)
qed

section \<open>Properties of the network entity manager\<close>

text \<open>Replaying a list of frames in order, and the frames that the server has not processed.\<close>

lemma replay_loop_filter:
  "replay_loop lpi i buf e =
     (take i buf @ filter (\<lambda>f. lpi < frame_sequence f) (drop i buf),
      foldl (\<lambda>e f. applyInput e (frame_input f) (frame_deltaTime f)) e
        (filter (\<lambda>f. lpi < frame_sequence f) (drop i buf)))"
proof (induction lpi i buf e rule: replay_loop.induct)
  case (1 lpi i buf e)
  show ?case
  proof (cases "i < length buf")
    case False
    then show ?thesis by (subst replay_loop.simps) simp
  next
    case True
    then have d: "drop i buf = buf ! i # drop (Suc i) buf"
      by (simp add: Cons_nth_drop_Suc)
    show ?thesis
    proof (cases "frame_sequence (buf ! i) \<le> lpi")
      case acked: True
      have "replay_loop lpi i buf e = replay_loop lpi i (take i buf @ drop (i + 1) buf) e"
        using True acked by (subst replay_loop.simps) (simp add: Let_def)
      also have "\<dots> =
        (take i (take i buf @ drop (i + 1) buf)
           @ filter (\<lambda>f. lpi < frame_sequence f) (drop i (take i buf @ drop (i + 1) buf)),
         foldl (\<lambda>e f. applyInput e (frame_input f) (frame_deltaTime f)) e
           (filter (\<lambda>f. lpi < frame_sequence f) (drop i (take i buf @ drop (i + 1) buf))))"
        using "1.IH"(1) [OF True refl acked] .
      finally show ?thesis
        using True acked by (simp add: d)
    next
      case pending: False
      have "replay_loop lpi i buf e =
          replay_loop lpi (i + 1) buf (applyInput e (frame_input (buf ! i)) (frame_deltaTime (buf ! i)))"
        using True pending by (subst replay_loop.simps) (simp add: Let_def)
      also have "\<dots> =
        (take (i + 1) buf @ filter (\<lambda>f. lpi < frame_sequence f) (drop (i + 1) buf),
         foldl (\<lambda>e f. applyInput e (frame_input f) (frame_deltaTime f))
           (applyInput e (frame_input (buf ! i)) (frame_deltaTime (buf ! i)))
           (filter (\<lambda>f. lpi < frame_sequence f) (drop (i + 1) buf)))"
        using "1.IH"(2) [OF True refl pending] .
      finally show ?thesis
        using True pending by (simp add: d take_Suc_conv_app_nth)
    qed
  qed
qed

lemma find_local_store:
  "find_local l = Some e0 \<Longrightarrow> find_local (store_local e l) = Some e"
  by (induction l rule: find_local.induct) (auto split: if_splits)

lemma store_local_twice: "store_local e (store_local e' l) = store_local e l"
  by (induction l rule: find_local.induct) auto

lemma applyInput_keeps [simp]:
  "ent_id (applyInput e inp dt) = ent_id e"
  "ent_speed (applyInput e inp dt) = ent_speed e"
  by (simp_all add: applyInput_def Let_def split: option.splits)

lemma applyInput_angle:
  "applyInput (e\<lparr>ent_angle := a\<rparr>) inp dt =
     (if mouseX inp \<noteq> None \<and> mouseY inp \<noteq> None then applyInput e inp dt
      else (applyInput e inp dt)\<lparr>ent_angle := a\<rparr>)"
  by (cases "mouseX inp"; cases "mouseY inp"; simp add: applyInput_def Let_def speed_or_4_def)

lemma replay_keeps [simp]:
  "ent_id (foldl (\<lambda>e f. applyInput e (frame_input f) (frame_deltaTime f)) e fs) = ent_id e"
  "ent_speed (foldl (\<lambda>e f. applyInput e (frame_input f) (frame_deltaTime f)) e fs) = ent_speed e"
  by (induction fs arbitrary: e) simp_all

lemma replay_angle:
  "foldl (\<lambda>e f. applyInput e (frame_input f) (frame_deltaTime f)) (e\<lparr>ent_angle := a\<rparr>) fs =
     (if \<exists>f\<in>set fs. mouseX (frame_input f) \<noteq> None \<and> mouseY (frame_input f) \<noteq> None
      then foldl (\<lambda>e f. applyInput e (frame_input f) (frame_deltaTime f)) e fs
      else (foldl (\<lambda>e f. applyInput e (frame_input f) (frame_deltaTime f)) e fs)\<lparr>ent_angle := a\<rparr>)"
proof (induction fs arbitrary: e)
  case Nil
  show ?case by simp
next
  case (Cons f fs)
  show ?case
  proof (cases "mouseX (frame_input f) \<noteq> None \<and> mouseY (frame_input f) \<noteq> None")
    case True
    then show ?thesis by (simp add: applyInput_angle)
  next
    case False
    then show ?thesis
      using Cons.IH [of "applyInput e (frame_input f) (frame_deltaTime f)"]
      by (auto simp add: applyInput_angle)
  qed
qed

lemma replay_from_base_again:
  assumes "e1 = foldl (\<lambda>e f. applyInput e (frame_input f) (frame_deltaTime f))
                  (lp\<lparr>ent_x := sx, ent_y := sy\<rparr>) fs"
  shows "foldl (\<lambda>e f. applyInput e (frame_input f) (frame_deltaTime f))
           (e1\<lparr>ent_x := sx, ent_y := sy\<rparr>) fs = e1"
proof -
  have "e1\<lparr>ent_x := sx, ent_y := sy\<rparr> = (lp\<lparr>ent_x := sx, ent_y := sy\<rparr>)\<lparr>ent_angle := ent_angle e1\<rparr>"
    by (simp add: assms)
  then show ?thesis
    by (simp only: replay_angle) (simp add: assms)
qed

text \<open>
  C5, as stated: every call discards the buffered inputs with
  \<open>sequence \<le> lastProcessedInput\<close>. With a server state that does not hold the local
  player, the call returns before its loop: the frames 1 and 2 are still buffered after
  a call with \<open>lastProcessedInput = 2\<close>, and only \<open>lastAcknowledgedInput\<close> has changed.
\<close>

theorem reconcileWithServer_early_return_counterexample:
  "find_local (localEntities example_manager) = Some example_local
   \<and> map_of ([] :: (val \<times> server_entity) list) (ent_id example_local) = None
   \<and> reconcileWithServer [] 2 example_manager = example_manager\<lparr>lastAcknowledgedInput := 2\<rparr>
   \<and> inputBuffer (reconcileWithServer [] 2 example_manager) =
       [example_frame 1 True False, example_frame 2 True False, example_frame 3 False True]
   \<and> frame_sequence (example_frame 1 True False) \<le> 2
   \<and> frame_sequence (example_frame 2 True False) \<le> 2"
  by (simp add: reconcileWithServer_def example_manager_def example_local_def example_frame_def)

text \<open>
  C5, amended: a second \<open>reconcileWithServer\<close> with the same server state and the same
  \<open>lastProcessedInput\<close> leaves the manager, and so the reconciled position of the local
  player, as the first call left it. Where the local player exists, has a truthy id and
  is in the server state, the call keeps exactly the buffered frames with
  \<open>sequence > lastProcessedInput\<close>, in order, and the local player is the server's
  position with each of those frames applied once, in order. In every other case the
  call records \<open>lastAcknowledgedInput\<close> and changes nothing else.
\<close>

theorem reconcileWithServer_idempotent:
  "reconcileWithServer srv lpi (reconcileWithServer srv lpi m) = reconcileWithServer srv lpi m
   \<and> (\<forall>lp sp. find_local (localEntities m) = Some lp \<and> truthy (ent_id lp)
              \<and> map_of srv (ent_id lp) = Some sp \<longrightarrow>
         inputBuffer (reconcileWithServer srv lpi m) =
           filter (\<lambda>f. lpi < frame_sequence f) (inputBuffer m)
         \<and> find_local (localEntities (reconcileWithServer srv lpi m)) =
             Some (foldl (\<lambda>e f. applyInput e (frame_input f) (frame_deltaTime f))
                     (lp\<lparr>ent_x := server_x sp, ent_y := server_y sp\<rparr>)
                     (filter (\<lambda>f. lpi < frame_sequence f) (inputBuffer m))))
   \<and> ((case find_local (localEntities m) of
          None \<Rightarrow> True
        | Some lp \<Rightarrow> \<not> truthy (ent_id lp) \<or> map_of srv (ent_id lp) = None) \<longrightarrow>
        reconcileWithServer srv lpi m = m\<lparr>lastAcknowledgedInput := lpi\<rparr>)"
proof (intro conjI allI impI)
  assume "case find_local (localEntities m) of
          None \<Rightarrow> True
        | Some lp \<Rightarrow> \<not> truthy (ent_id lp) \<or> map_of srv (ent_id lp) = None"
  then show "reconcileWithServer srv lpi m = m\<lparr>lastAcknowledgedInput := lpi\<rparr>"
    by (auto simp add: reconcileWithServer_def Let_def split: option.splits)
next
  fix lp sp
  assume h: "find_local (localEntities m) = Some lp \<and> truthy (ent_id lp)
              \<and> map_of srv (ent_id lp) = Some sp"
  then show "inputBuffer (reconcileWithServer srv lpi m) =
           filter (\<lambda>f. lpi < frame_sequence f) (inputBuffer m)"
    by (simp add: reconcileWithServer_def replay_loop_filter Let_def)
  from h show "find_local (localEntities (reconcileWithServer srv lpi m)) =
             Some (foldl (\<lambda>e f. applyInput e (frame_input f) (frame_deltaTime f))
                     (lp\<lparr>ent_x := server_x sp, ent_y := server_y sp\<rparr>)
                     (filter (\<lambda>f. lpi < frame_sequence f) (inputBuffer m)))"
    by (simp add: reconcileWithServer_def replay_loop_filter Let_def find_local_store)
next
  show "reconcileWithServer srv lpi (reconcileWithServer srv lpi m) = reconcileWithServer srv lpi m"
  proof (cases "find_local (localEntities m)")
    case None
    then show ?thesis by (simp add: reconcileWithServer_def Let_def)
  next
    case (Some lp)
    show ?thesis
    proof (cases "truthy (ent_id lp)")
      case False
      with Some show ?thesis by (simp add: reconcileWithServer_def Let_def)
    next
      case True
      show ?thesis
      proof (cases "map_of srv (ent_id lp)")
        case None
        with Some True show ?thesis by (simp add: reconcileWithServer_def Let_def)
      next
        case sp: (Some sp)
        define fs where "fs = filter (\<lambda>f. lpi < frame_sequence f) (inputBuffer m)"
        define e1 where "e1 = foldl (\<lambda>e f. applyInput e (frame_input f) (frame_deltaTime f))
                  (lp\<lparr>ent_x := server_x sp, ent_y := server_y sp\<rparr>) fs"
        have first: "reconcileWithServer srv lpi m =
            m\<lparr>lastAcknowledgedInput := lpi, inputBuffer := fs,
              localEntities := store_local e1 (localEntities m)\<rparr>"
          using Some True sp
          by (simp add: reconcileWithServer_def replay_loop_filter Let_def fs_def e1_def)
        have again: "foldl (\<lambda>e f. applyInput e (frame_input f) (frame_deltaTime f))
              (e1\<lparr>ent_x := server_x sp, ent_y := server_y sp\<rparr>) fs = e1"
          using replay_from_base_again [OF e1_def] .
        have id1: "ent_id e1 = ent_id lp" by (simp add: e1_def)
        have ffs: "filter (\<lambda>f. lpi < frame_sequence f) fs = fs" by (simp add: fs_def)
        have found: "find_local (store_local e1 (localEntities m)) = Some e1"
          using find_local_store [OF Some] .
        show ?thesis
          unfolding first
          using True sp
          by (simp add: reconcileWithServer_def replay_loop_filter Let_def found id1 ffs again
              store_local_twice)
      qed
    qed
  qed
qed

theorem reconcileWithServer_idempotent_witness:
  "(find_local (localEntities example_manager) = Some example_local \<and> truthy (ent_id example_local)
      \<and> map_of example_server (ent_id example_local) = Some \<lparr>server_x = 104, server_y = 100\<rparr>)
   \<and> inputBuffer (reconcileWithServer example_server 1 example_manager) =
        [example_frame 2 True False, example_frame 3 False True]
   \<and> find_local (localEntities (reconcileWithServer example_server 1 example_manager)) =
        Some (example_local\<lparr>ent_x := 106, ent_y := 102\<rparr>)
   \<and> reconcileWithServer example_server 1 (reconcileWithServer example_server 1 example_manager) =
        reconcileWithServer example_server 1 example_manager"
proof -
  have h: "find_local (localEntities example_manager) = Some example_local \<and> truthy (ent_id example_local)
      \<and> map_of example_server (ent_id example_local) = Some \<lparr>server_x = 104, server_y = 100\<rparr>"
    by (simp add: example_manager_def example_local_def example_server_def)
  note t = reconcileWithServer_idempotent [of example_server 1 example_manager]
  note t2 = t [THEN conjunct2, THEN conjunct1, rule_format, OF h]
  have b: "filter (\<lambda>f. 1 < frame_sequence f) (inputBuffer example_manager) =
      [example_frame 2 True False, example_frame 3 False True]"
    by (simp add: example_manager_def example_frame_def)
  have e: "foldl (\<lambda>e f. applyInput e (frame_input f) (frame_deltaTime f))
      (example_local\<lparr>ent_x := server_x \<lparr>server_x = 104, server_y = 100\<rparr>,
                      ent_y := server_y \<lparr>server_x = 104, server_y = 100\<rparr>\<rparr>)
      [example_frame 2 True False, example_frame 3 False True] =
      example_local\<lparr>ent_x := 106, ent_y := 102\<rparr>"
    by (simp add: example_frame_def example_local_def applyInput_def speed_or_4_def)
  from h t [THEN conjunct1] t2 show ?thesis
    by (simp only: b e simp_thms)
qed

section \<open>Properties of the game server\<close>

lemma spawn_loop_running: "running (spawn_loop random n i s) = running s"
proof (induction random n i s rule: spawn_loop.induct)
  case (1 random n i s)
  show ?case
  proof (cases "i < n")
    case True
    then show ?thesis
      using "1.IH" by (subst spawn_loop.simps) (simp add: Let_def split_beta)
  next
    case False
    then show ?thesis by (subst spawn_loop.simps) simp
  qed
qed

lemma host_ready_value:
  "host_ready =
     \<lparr>rooms = [(''r1'', \<lparr>host = ''h'',
                          room_players = [(''h'', \<lparr>rp_name = ''Host'', rp_ready = True\<rparr>)],
                          spectators = [], started = False\<rparr>)],
      gameSessions = [], emitted = [PlayerReadyUpdate ''r1'' ''h'' True]\<rparr>"
  by (simp add: host_ready_def handlePlayerReady_def getRoom_def host_socket_def lobby_of_one_def
      allReady_def)

text \<open>
  C9, at a room whose only member is its host, who has signalled ready: the claim makes
  a start request fail while the room has fewer than two members. \<open>handleStartGame\<close>
  checks the host and the ready flags only: it emits no error, creates the session,
  starts it and marks the room as started, with one member. \<open>handlePlayerReady\<close> did
  not announce \<open>all-players-ready\<close> for this room, since it does test the size.
\<close>

theorem handleStartGame_single_member:
  "map_option (map fst) (map_option room_players (map_of (rooms host_ready) ''r1'')) = Some [''h'']
   \<and> emitted host_ready = [PlayerReadyUpdate ''r1'' ''h'' True]
   \<and> map_of (gameSessions host_ready) ''r1'' = None
   \<and> emitted (handleStartGame random host_socket host_ready) =
       [PlayerReadyUpdate ''r1'' ''h'' True, GameStarted ''r1'']
   \<and> map_option running (map_of (gameSessions (handleStartGame random host_socket host_ready)) ''r1'')
       = Some True
   \<and> map_option started (map_of (rooms (handleStartGame random host_socket host_ready)) ''r1'')
       = Some True"
proof -
  have r: "running (start random (new_session [''h'']))"
    by (simp add: start_def spawnWave_def spawn_loop_running new_session_def)
  show ?thesis
    using r
    by (simp add: host_ready_value handleStartGame_def getRoom_def host_socket_def allReady_def)
qed

end
